theory Spec2Isabelle
  imports Complex_Main "HOL-Library.Log_Nat" "HOL-Library.Sublist"
begin

section \<open>Strings\<close>

text \<open>
  Python's \<open>str.lower()\<close>, on the characters that matter to the token tests of the
  discovery responder: an ASCII capital becomes its small letter, every other character
  stays as it is.
\<close>

definition lower_char :: "char \<Rightarrow> char" where
  "lower_char c =
     (case map_of (zip ''ABCDEFGHIJKLMNOPQRSTUVWXYZ'' ''abcdefghijklmnopqrstuvwxyz'') c of
        Some l \<Rightarrow> l
      | None \<Rightarrow> c)"

definition lower :: "string \<Rightarrow> string" where
  "lower s = map lower_char s"

text \<open>\<open>s.startswith(p)\<close> and the substring test \<open>needle in s\<close>.\<close>

fun startswith :: "string \<Rightarrow> string \<Rightarrow> bool" where
  "startswith s [] = True"
| "startswith [] (p # ps) = False"
| "startswith (c # cs) (p # ps) = (c = p \<and> startswith cs ps)"

fun str_in :: "string \<Rightarrow> string \<Rightarrow> bool" where
  "str_in needle [] = (needle = [])"
| "str_in needle (c # cs) = (startswith (c # cs) needle \<or> str_in needle cs)"

text \<open>\<open>str(n)\<close> for a natural number: its decimal digits.\<close>

definition digit_char :: "nat \<Rightarrow> char" where
  "digit_char d = ''0123456789'' ! d"

fun str_nat :: "nat \<Rightarrow> string" where
  "str_nat n = (if n < 10 then [digit_char n] else str_nat (n div 10) @ [digit_char (n mod 10)])"

declare str_nat.simps [simp del]

section \<open>Python values and exceptions\<close>

text \<open>
  The values \<open>json.loads\<close> and the YAML loader hand to the program: \<open>None\<close>, booleans,
  integers, strings, lists and dictionaries (a dictionary as its items in order). The
  Hue protocol's numbers are integers, so a JSON number is an integer here.
\<close>

datatype json = JNull | JBool bool | JNum int | JStr string | JArr "json list"
  | JObj "(string \<times> json) list"

datatype exn = TypeError | KeyError | AttributeError | ZeroDivisionError | OverflowError

text \<open>Truth value testing (\<open>if x\<close>, \<open>x or y\<close>, \<open>'On' if command else 'Off'\<close>).\<close>

fun truthy :: "json \<Rightarrow> bool" where
  "truthy JNull = False"
| "truthy (JBool b) = b"
| "truthy (JNum n) = (n \<noteq> 0)"
| "truthy (JStr s) = (s \<noteq> [])"
| "truthy (JArr xs) = (xs \<noteq> [])"
| "truthy (JObj kvs) = (kvs \<noteq> [])"

text \<open>
  The operand of the arithmetic the program does on a value (\<open>x * 100 / 254\<close>,
  \<open>x / 2.54\<close>, \<open>x - 153\<close>): an integer is itself, \<open>True\<close> and \<open>False\<close> are 1 and 0,
  and every other value ends in a \<open>TypeError\<close>.
\<close>

fun as_int :: "json \<Rightarrow> exn + int" where
  "as_int (JNum n) = Inr n"
| "as_int (JBool b) = Inr (if b then 1 else 0)"
| "as_int v = Inl TypeError"

section \<open>Floating point\<close>

text \<open>
  A Python \<open>float\<close> is an IEEE 754 double. A finite double is a rational number, and
  every operation returns the exact result rounded to 53 significant bits, ties to the
  even neighbour: \<open>fl\<close>. A rounded result of magnitude \<open>2 ^ 1024\<close> or more is too
  large for a double: the conversion of an integer and the division of two integers
  raise \<open>OverflowError\<close> then, an operation on floats gives an infinity. The only use
  this program makes of an infinity is to scale it and hand it to \<open>int\<close>, which raises
  \<open>OverflowError\<close>; so a value of magnitude \<open>2 ^ 1024\<close> or more stands for the infinity
  of its sign. Results below the normal range, which only \<open>_rgb_to_hsv\<close> can produce,
  keep 53 bits here.
\<close>

definition ilog2 :: "rat \<Rightarrow> int" where
  "ilog2 x = (case quotient_of x of (p, q) \<Rightarrow>
     (let t = bitlen p - bitlen q in if x < power_int 2 t then t - 1 else t))"

definition round_half_even :: "rat \<Rightarrow> int" where
  "round_half_even m = (let f = \<lfloor>m\<rfloor>; d = m - of_int f in
     if d < 1 / 2 then f else if 1 / 2 < d then f + 1 else if even f then f else f + 1)"

definition fl :: "rat \<Rightarrow> rat" where
  "fl x = (if x = 0 then 0 else
     (let a = \<bar>x\<bar>; e = ilog2 a - 52
      in sgn x * of_int (round_half_even (a / power_int 2 e)) * power_int 2 e))"

definition overflows :: "rat \<Rightarrow> bool" where
  "overflows x = (2 ^ 1024 \<le> \<bar>x\<bar>)"

text \<open>A number is an \<open>int\<close> or a \<open>float\<close>; arithmetic on mixed operands is done in floats.\<close>

datatype pynum = PInt int | PFloat rat

fun num_val :: "pynum \<Rightarrow> rat" where
  "num_val (PInt n) = of_int n"
| "num_val (PFloat x) = x"

text \<open>
  The operand of a float operation: an integer is converted, and one too large for a
  double raises \<open>OverflowError\<close>.
\<close>

fun to_float :: "pynum \<Rightarrow> exn + rat" where
  "to_float (PInt n) = (if overflows (fl (of_int n)) then Inl OverflowError else Inr (fl (of_int n)))"
| "to_float (PFloat x) = Inr x"

text \<open>
  \<open>a / b\<close> on two integers: the quotient, correctly rounded, or \<open>OverflowError\<close> when
  it is too large for a double.
\<close>

definition int_truediv :: "int \<Rightarrow> int \<Rightarrow> exn + rat" where
  "int_truediv a b =
     (if b = 0 then Inl ZeroDivisionError
      else if overflows (fl (of_int a / of_int b)) then Inl OverflowError
      else Inr (fl (of_int a / of_int b)))"

text \<open>\<open>x / y\<close> with a float divisor that is not zero.\<close>

definition float_div :: "pynum \<Rightarrow> rat \<Rightarrow> exn + rat" where
  "float_div x y = (case to_float x of Inl e \<Rightarrow> Inl e | Inr a \<Rightarrow> Inr (fl (a / y)))"

fun py_sub :: "pynum \<Rightarrow> pynum \<Rightarrow> exn + pynum" where
  "py_sub (PInt a) (PInt b) = Inr (PInt (a - b))"
| "py_sub x y =
     (case to_float x of Inl e \<Rightarrow> Inl e | Inr a \<Rightarrow>
     (case to_float y of Inl e \<Rightarrow> Inl e | Inr b \<Rightarrow> Inr (PFloat (fl (a - b)))))"

fun py_mul :: "pynum \<Rightarrow> pynum \<Rightarrow> exn + pynum" where
  "py_mul (PInt a) (PInt b) = Inr (PInt (a * b))"
| "py_mul x y =
     (case to_float x of Inl e \<Rightarrow> Inl e | Inr a \<Rightarrow>
     (case to_float y of Inl e \<Rightarrow> Inl e | Inr b \<Rightarrow> Inr (PFloat (fl (a * b)))))"

text \<open>\<open>min(a, b)\<close> and \<open>max(a, b)\<close> keep the first argument unless the second beats it.\<close>

definition py_min :: "pynum \<Rightarrow> pynum \<Rightarrow> pynum" where
  "py_min a b = (if num_val b < num_val a then b else a)"

definition py_max :: "pynum \<Rightarrow> pynum \<Rightarrow> pynum" where
  "py_max a b = (if num_val a < num_val b then b else a)"

text \<open>
  \<open>int(x)\<close> cuts the fraction off, towards zero, and raises \<open>OverflowError\<close> on an
  infinity.
\<close>

definition trunc :: "rat \<Rightarrow> int" where
  "trunc x = (if 0 \<le> x then \<lfloor>x\<rfloor> else \<lceil>x\<rceil>)"

fun py_int :: "pynum \<Rightarrow> exn + int" where
  "py_int (PInt n) = Inr n"
| "py_int (PFloat x) = (if overflows x then Inl OverflowError else Inr (trunc x))"

text \<open>\<open>int(x * y)\<close>.\<close>

definition int_mul :: "pynum \<Rightarrow> pynum \<Rightarrow> exn + int" where
  "int_mul x y = (case py_mul x y of Inl e \<Rightarrow> Inl e | Inr p \<Rightarrow> py_int p)"

text \<open>The literal \<open>2.54\<close>: the double nearest to 254/100.\<close>

definition float_2_54 :: rat where
  "float_2_54 = 2859785763380265 / 1125899906842624"

text \<open>
  \<open>int(x * num / den)\<close> for a value \<open>x\<close> and integer constants, the scaling of
  \<open>set_rgb_color\<close>, \<open>set_white_color\<close> and \<open>set_brightness\<close>.
\<close>

definition scale_int :: "json \<Rightarrow> int \<Rightarrow> int \<Rightarrow> exn + int" where
  "scale_int x num den =
     (case as_int x of
        Inl e \<Rightarrow> Inl e
      | Inr n \<Rightarrow> (case int_truediv (n * num) den of Inl e \<Rightarrow> Inl e | Inr q \<Rightarrow> Inr (trunc q)))"

section \<open>Hub adapter (class DomoticzController): commands\<close>

text \<open>
  Every command method builds the parameters of one GET request to the hub's
  \<open>/json.htm\<close> and sends it. A method is modelled by the request it sends, or the
  exception it raises before sending; the login exchange of \<open>_ensure_login\<close> and the
  hub's answer decide only the boolean the method returns, which its callers drop.
\<close>

datatype adapter_method = Switch_light | Switch_scene | Set_dimmer | Set_rgb_color
  | Set_white_color | Set_brightness

type_synonym params = "(string \<times> json) list"

type_synonym hub_call = "adapter_method \<times> params"

definition switch_light :: "json \<Rightarrow> json \<Rightarrow> hub_call" where
  "switch_light idx command =
     (Switch_light, [(''type'', JStr ''command''), (''param'', JStr ''switchlight''), (''idx'', idx),
        (''switchcmd'', JStr (if truthy command then ''On'' else ''Off''))])"

definition switch_scene :: "json \<Rightarrow> json \<Rightarrow> hub_call" where
  "switch_scene idx command =
     (Switch_scene, [(''type'', JStr ''command''), (''param'', JStr ''switchscene''), (''idx'', idx),
        (''switchcmd'', JStr (if truthy command then ''On'' else ''Off''))])"

definition set_dimmer :: "json \<Rightarrow> int \<Rightarrow> hub_call" where
  "set_dimmer idx level =
     (Set_dimmer, [(''type'', JStr ''command''), (''param'', JStr ''switchlight''), (''idx'', idx),
        (''switchcmd'', JStr ''Set Level''), (''level'', JNum level)])"

text \<open>An optional parameter: left out when the argument is \<open>None\<close>, scaled otherwise.\<close>

definition opt_param :: "string \<Rightarrow> json \<Rightarrow> int \<Rightarrow> int \<Rightarrow> exn + params" where
  "opt_param key x num den =
     (if x = JNull then Inr []
      else (case scale_int x num den of Inl e \<Rightarrow> Inl e | Inr v \<Rightarrow> Inr [(key, JNum v)]))"

definition set_rgb_color :: "json \<Rightarrow> json \<Rightarrow> json \<Rightarrow> json \<Rightarrow> exn + hub_call" where
  "set_rgb_color idx hue saturation brightness =
     (case opt_param ''hue'' hue 360 65535 of
        Inl e \<Rightarrow> Inl e
      | Inr ph \<Rightarrow>
     (case opt_param ''saturation'' saturation 100 254 of
        Inl e \<Rightarrow> Inl e
      | Inr ps \<Rightarrow>
     (case opt_param ''brightness'' brightness 100 254 of
        Inl e \<Rightarrow> Inl e
      | Inr pb \<Rightarrow>
          Inr (Set_rgb_color,
            [(''type'', JStr ''command''), (''param'', JStr ''setcolbrightnessvalue''), (''idx'', idx),
             (''iswhite'', JStr ''false'')] @ ph @ ps @ pb))))"

text \<open>
  The cold and warm white levels \<open>(cw, ww)\<close> of \<open>set_white_color\<close> for a colour
  temperature in mireds.
\<close>

definition white_mix :: "json \<Rightarrow> exn + int \<times> int" where
  "white_mix color_temp =
     (case as_int color_temp of
        Inl e \<Rightarrow> Inl e
      | Inr ct \<Rightarrow>
     (case int_truediv (ct - 153) (500 - 153) of
        Inl e \<Rightarrow> Inl e
      | Inr q \<Rightarrow>
          (let normalized = py_max (PInt 0) (py_min (PInt 1) (PFloat q))
           in
     (case py_sub (PInt 1) normalized of
        Inl e \<Rightarrow> Inl e
      | Inr d \<Rightarrow>
     (case int_mul (PInt 255) d of
        Inl e \<Rightarrow> Inl e
      | Inr cw \<Rightarrow>
     (case int_mul (PInt 255) normalized of
        Inl e \<Rightarrow> Inl e
      | Inr ww \<Rightarrow> Inr (cw, ww)))))))"

definition bri_level :: "json \<Rightarrow> exn + int" where
  "bri_level brightness = (if truthy brightness then scale_int brightness 100 254 else Inr 100)"

definition set_white_color :: "json \<Rightarrow> json \<Rightarrow> json \<Rightarrow> exn + hub_call" where
  "set_white_color idx color_temp brightness =
     (case white_mix color_temp of
        Inl e \<Rightarrow> Inl e
      | Inr (cw, ww) \<Rightarrow>
     (case bri_level brightness of
        Inl e \<Rightarrow> Inl e
      | Inr level \<Rightarrow>
          Inr (Set_white_color,
            [(''type'', JStr ''command''), (''param'', JStr ''setcolbrightnessvalue''), (''idx'', idx),
             (''color'', JObj [(''m'', JNum 2), (''t'', JNum 0), (''r'', JNum 0), (''g'', JNum 0),
                (''b'', JNum 0), (''cw'', JNum cw), (''ww'', JNum ww)]),
             (''brightness'', JNum level)])))"

definition set_brightness :: "json \<Rightarrow> json \<Rightarrow> exn + hub_call" where
  "set_brightness idx brightness =
     (case scale_int brightness 100 254 of
        Inl e \<Rightarrow> Inl e
      | Inr level \<Rightarrow>
          Inr (Set_brightness,
            [(''type'', JStr ''command''), (''param'', JStr ''switchlight''), (''idx'', idx),
             (''switchcmd'', JStr ''Set Level''), (''level'', JNum level)]))"

section \<open>Hub adapter: status query (get_device_status)\<close>

text \<open>The status dictionary, with its keys \<open>on\<close>, \<open>bri\<close>, \<open>hue\<close> and \<open>sat\<close>.\<close>

record status =
  st_on :: bool
  st_bri :: int
  st_hue :: int
  st_sat :: int

definition default_status :: status where
  "default_status = \<lparr>st_on = False, st_bri = 0, st_hue = 0, st_sat = 0\<rparr>"

text \<open>
  What \<open>self.session.get(url, params=params, timeout=5)\<close> gives: an exception (timeout,
  refused connection, ...) or a response with its status code and its body, \<open>None\<close>
  when the body is not JSON and \<open>response.json()\<close> raises.
\<close>

datatype http_result = Request_failed | Response nat "json option"

text \<open>\<open>x.get(key, default)\<close>: only a dictionary has the method.\<close>

fun obj_get :: "json \<Rightarrow> string \<Rightarrow> json \<Rightarrow> exn + json" where
  "obj_get (JObj kvs) key d = Inr (case map_of kvs key of None \<Rightarrow> d | Some v \<Rightarrow> v)"
| "obj_get v key d = Inl AttributeError"

text \<open>
  \<open>for x in v\<close>: the elements of a list, the keys of a dictionary, the characters of a
  string; nothing else can be iterated.
\<close>

fun py_iter :: "json \<Rightarrow> exn + json list" where
  "py_iter (JArr xs) = Inr xs"
| "py_iter (JObj kvs) = Inr (map (\<lambda>kv. JStr (fst kv)) kvs)"
| "py_iter (JStr s) = Inr (map (\<lambda>c. JStr [c]) s)"
| "py_iter v = Inl TypeError"

text \<open>\<open>v[0]\<close> on a value that is true: a dictionary from JSON has no key \<open>0\<close>.\<close>

fun first_item :: "json \<Rightarrow> exn + json" where
  "first_item (JArr (x # xs)) = Inr x"
| "first_item (JStr (c # cs)) = Inr (JStr [c])"
| "first_item (JObj kvs) = Inl KeyError"
| "first_item v = Inl TypeError"

text \<open>
  \<open>str(v)\<close>. The text of a list or a dictionary is its \<open>repr\<close>, which is taken as a
  parameter.
\<close>

definition str_int :: "int \<Rightarrow> string" where
  "str_int n = (if n < 0 then ''-'' @ str_nat (nat (- n)) else str_nat (nat n))"

fun py_str :: "(json \<Rightarrow> string) \<Rightarrow> json \<Rightarrow> string" where
  "py_str repr JNull = ''None''"
| "py_str repr (JBool b) = (if b then ''True'' else ''False'')"
| "py_str repr (JNum n) = str_int n"
| "py_str repr (JStr s) = s"
| "py_str repr v = repr v"

text \<open>\<open>key in v\<close> for a dictionary \<open>v\<close>.\<close>

fun has_key :: "json \<Rightarrow> string \<Rightarrow> bool" where
  "has_key (JObj kvs) key = (map_of kvs key \<noteq> None)"
| "has_key v key = False"

text \<open>\<open>level == 0\<close>: \<open>False\<close> equals 0 as well.\<close>

fun eq_zero :: "json \<Rightarrow> bool" where
  "eq_zero (JNum n) = (n = 0)"
| "eq_zero (JBool b) = (\<not> b)"
| "eq_zero v = False"

text \<open>\<open>int(level * 2.54)\<close>, the brightness on the Hue scale for a level in percent.\<close>

definition level_to_bri :: "json \<Rightarrow> exn + int" where
  "level_to_bri level =
     (case as_int level of
        Inl e \<Rightarrow> Inl e
      | Inr n \<Rightarrow> int_mul (PInt n) (PFloat float_2_54))"

text \<open>
  \<open>_rgb_to_hsv\<close>, on the three colour values: hue and saturation in the range 0 to 1.
  A value that is no number raises \<open>TypeError\<close>; a maximum of zero above a negative
  minimum divides by zero.
\<close>

definition channel :: "json \<Rightarrow> exn + rat" where
  "channel v = (case as_int v of Inl e \<Rightarrow> Inl e | Inr n \<Rightarrow> float_div (PInt n) 255)"

text \<open>\<open>x % 1.0\<close>: the remainder has the sign of the divisor.\<close>

definition mod_one :: "rat \<Rightarrow> rat" where
  "mod_one x = (let m = x - of_int (trunc x) in if m < 0 then fl (m + 1) else m)"

definition rgb_to_hsv :: "json \<Rightarrow> json \<Rightarrow> json \<Rightarrow> exn + pynum \<times> pynum" where
  "rgb_to_hsv rv gv bv =
     (case channel rv of Inl e \<Rightarrow> Inl e | Inr r \<Rightarrow>
     (case channel gv of Inl e \<Rightarrow> Inl e | Inr g \<Rightarrow>
     (case channel bv of Inl e \<Rightarrow> Inl e | Inr b \<Rightarrow>
       (let max_c = max r (max g b); min_c = min r (min g b)
        in if max_c = min_c then Inr (PInt 0, PInt 0)
           else if max_c = 0 then Inl ZeroDivisionError
           else
             (let s = fl ((fl (max_c - min_c)) / max_c);
                  rc = fl (fl (max_c - r) / fl (max_c - min_c));
                  gc = fl (fl (max_c - g) / fl (max_c - min_c));
                  bc = fl (fl (max_c - b) / fl (max_c - min_c));
                  h = (if r = max_c then fl (bc - gc)
                       else if g = max_c then fl (fl (2 + rc) - bc)
                       else fl (fl (4 + gc) - rc))
              in Inr (PFloat (mod_one (fl (h / 6))), PFloat s))))))"

text \<open>
  The \<open>try\<close> block inside \<open>if "Color" in device\<close>, on the status built so far. The
  parser \<open>json.loads\<close> is a parameter: \<open>None\<close> is its \<open>JSONDecodeError\<close>. That error and
  \<open>TypeError\<close> are passed over; any other exception leaves the block.
\<close>

definition decode_color :: "(string \<Rightarrow> json option) \<Rightarrow> json \<Rightarrow> status \<Rightarrow> exn + status" where
  "decode_color loads c st =
     (case (case c of JStr text \<Rightarrow> loads text | v \<Rightarrow> Some v) of
        None \<Rightarrow> Inr st
      | Some color \<Rightarrow>
     (case obj_get color ''r'' (JNum 0) of Inl e \<Rightarrow> Inl e | Inr r \<Rightarrow>
     (case obj_get color ''g'' (JNum 0) of Inl e \<Rightarrow> Inl e | Inr g \<Rightarrow>
     (case obj_get color ''b'' (JNum 0) of Inl e \<Rightarrow> Inl e | Inr b \<Rightarrow>
     (case rgb_to_hsv r g b of
        Inl TypeError \<Rightarrow> Inr st
      | Inl e \<Rightarrow> Inl e
      | Inr (h, s) \<Rightarrow>
     (case int_mul h (PInt 65535) of Inl e \<Rightarrow> Inl e | Inr hue \<Rightarrow>
     (case int_mul s (PInt 254) of Inl e \<Rightarrow> Inl e | Inr sat \<Rightarrow>
        Inr (st\<lparr>st_hue := hue, st_sat := sat\<rparr>))))))))"

text \<open>The device branch: \<open>None\<close> when the branch ends without a \<open>return\<close>.\<close>

definition device_status :: "(string \<Rightarrow> json option) \<Rightarrow> json \<Rightarrow> exn + status option" where
  "device_status loads data =
     (case obj_get data ''result'' JNull of Inl e \<Rightarrow> Inl e | Inr res \<Rightarrow>
       if \<not> truthy res then Inr None
       else
     (case first_item res of Inl e \<Rightarrow> Inl e | Inr device \<Rightarrow>
     (case obj_get device ''Status'' (JStr ''Off'') of Inl e \<Rightarrow> Inl e | Inr st \<Rightarrow>
     (case obj_get device ''Level'' (JNum 0) of Inl e \<Rightarrow> Inl e | Inr level0 \<Rightarrow>
       (let is_on = (st \<noteq> JStr ''Off'');
            level = (if eq_zero level0 \<and> is_on then JNum 100 else level0)
        in
     (case level_to_bri level of Inl e \<Rightarrow> Inl e | Inr b \<Rightarrow>
       (let status = \<lparr>st_on = is_on, st_bri = b, st_hue = 0, st_sat = 0\<rparr>
        in
       if has_key device ''Color'' then
         (case obj_get device ''Color'' JNull of Inl e \<Rightarrow> Inl e | Inr c \<Rightarrow>
         (case decode_color loads c status of Inl e \<Rightarrow> Inl e | Inr s' \<Rightarrow> Inr (Some s')))
       else Inr (Some status))))))))"

text \<open>The scene branch: the loop over \<open>data.get("result", [])\<close>.\<close>

fun find_scene :: "(json \<Rightarrow> string) \<Rightarrow> json \<Rightarrow> json list \<Rightarrow> exn + status option" where
  "find_scene repr i [] = Inr None"
| "find_scene repr i (scene # rest) =
     (case obj_get scene ''idx'' JNull of
        Inl e \<Rightarrow> Inl e
      | Inr si \<Rightarrow>
          if py_str repr si = py_str repr i then
            (case obj_get scene ''Status'' JNull of
               Inl e \<Rightarrow> Inl e
             | Inr st \<Rightarrow> Inr (Some \<lparr>st_on = (st = JStr ''On''), st_bri = 254, st_hue = 0, st_sat = 0\<rparr>))
          else find_scene repr i rest)"

definition scene_status :: "(json \<Rightarrow> string) \<Rightarrow> json \<Rightarrow> json \<Rightarrow> exn + status option" where
  "scene_status repr i data =
     (case obj_get data ''result'' (JArr []) of Inl e \<Rightarrow> Inl e | Inr res \<Rightarrow>
     (case py_iter res of Inl e \<Rightarrow> Inl e | Inr scenes \<Rightarrow> find_scene repr i scenes))"

text \<open>
  \<open>get_device_status\<close>: every exception inside the \<open>try\<close> block, and a block that ends
  without a \<open>return\<close>, give the default status. The status code of the response is
  not read.
\<close>

definition get_device_status ::
    "(json \<Rightarrow> string) \<Rightarrow> (string \<Rightarrow> json option) \<Rightarrow> json \<Rightarrow> bool \<Rightarrow> http_result \<Rightarrow> status" where
  "get_device_status repr loads i scene response =
     (case response of
        Request_failed \<Rightarrow> default_status
      | Response code None \<Rightarrow> default_status
      | Response code (Some data) \<Rightarrow>
          (case (if scene then scene_status repr i data else device_status loads data) of
             Inl e \<Rightarrow> default_status
           | Inr None \<Rightarrow> default_status
           | Inr (Some st) \<Rightarrow> st))"

section \<open>Device registry (build_devices_dict)\<close>

text \<open>
  A Python dictionary keeps its keys in insertion order: it is a list of items with
  distinct keys, and \<open>d[k] = v\<close> replaces the value of a key that is there and appends
  a new key at the end.
\<close>

fun dict_set :: "'k \<Rightarrow> 'v \<Rightarrow> ('k \<times> 'v) list \<Rightarrow> ('k \<times> 'v) list" where
  "dict_set k v [] = [(k, v)]"
| "dict_set k v ((k', v') # kvs) =
     (if k' = k then (k, v) # kvs else (k', v') # dict_set k v kvs)"

text \<open>
  A device descriptor: the dictionary stored under a light id. Only a scene has the
  key \<open>description\<close>.
\<close>

record device =
  name :: json
  idx :: json
  dev_type :: json
  is_scene :: bool
  description :: "json option"

type_synonym devices = "(string \<times> device) list"

text \<open>
  The entries of the configuration file, each a dictionary read by key: \<open>None\<close> is a
  key that is missing.
\<close>

record device_entry =
  entry_name :: "json option"
  entry_idx :: "json option"
  entry_type :: "json option"

record scene_entry =
  scene_name :: "json option"
  scene_idx :: "json option"
  scene_description :: "json option"

record config =
  cfg_devices :: "device_entry list option"
  cfg_scenes :: "scene_entry list option"

text \<open>\<open>config.get(key) or []\<close>: a missing or empty list is the empty list.\<close>

definition or_empty :: "'a list option \<Rightarrow> 'a list" where
  "or_empty v = (case v of None \<Rightarrow> [] | Some xs \<Rightarrow> xs)"

text \<open>
  The two \<open>for\<close> loops of \<open>build_devices_dict\<close>, on the dictionary built so far and the
  next light id. \<open>device['name']\<close> and \<open>device['idx']\<close> raise \<open>KeyError\<close> on a missing key.
\<close>

fun add_devices :: "device_entry list \<Rightarrow> devices \<Rightarrow> nat \<Rightarrow> exn + devices \<times> nat" where
  "add_devices [] devs light_id = Inr (devs, light_id)"
| "add_devices (d # ds) devs light_id =
     (case entry_name d of
        None \<Rightarrow> Inl KeyError
      | Some n \<Rightarrow>
     (case entry_idx d of
        None \<Rightarrow> Inl KeyError
      | Some i \<Rightarrow>
          add_devices ds
            (dict_set (str_nat light_id)
               \<lparr>name = n, idx = i,
                dev_type = (case entry_type d of None \<Rightarrow> JStr ''switch'' | Some t \<Rightarrow> t),
                is_scene = False, description = None\<rparr> devs)
            (light_id + 1)))"

fun add_scenes :: "scene_entry list \<Rightarrow> devices \<Rightarrow> nat \<Rightarrow> exn + devices \<times> nat" where
  "add_scenes [] devs light_id = Inr (devs, light_id)"
| "add_scenes (s # ss) devs light_id =
     (case scene_name s of
        None \<Rightarrow> Inl KeyError
      | Some n \<Rightarrow>
     (case scene_idx s of
        None \<Rightarrow> Inl KeyError
      | Some i \<Rightarrow>
          add_scenes ss
            (dict_set (str_nat light_id)
               \<lparr>name = n, idx = i, dev_type = JStr ''scene'', is_scene = True,
                description =
                  Some (case scene_description s of None \<Rightarrow> JStr [] | Some t \<Rightarrow> t)\<rparr> devs)
            (light_id + 1)))"

definition build_devices_dict :: "config \<Rightarrow> exn + devices" where
  "build_devices_dict cfg =
     (case add_devices (or_empty (cfg_devices cfg)) [] 1 of
        Inl e \<Rightarrow> Inl e
      | Inr (devs, light_id) \<Rightarrow>
     (case add_scenes (or_empty (cfg_scenes cfg)) devs light_id of
        Inl e \<Rightarrow> Inl e
      | Inr (devs', light_id') \<Rightarrow> Inr devs'))"

section \<open>API emulation layer (class HueAPIHandler): light control\<close>

text \<open>
  The parsed body of a PUT request is a dictionary; \<open>data.get(key)\<close> is \<open>None\<close> for a
  missing key.
\<close>

type_synonym body = "string \<rightharpoonup> json"

definition dict_get :: "body \<Rightarrow> string \<Rightarrow> json" where
  "dict_get data key = (case data key of None \<Rightarrow> JNull | Some v \<Rightarrow> v)"

text \<open>
  An entry of the response: \<open>{"success": {path: value}}\<close> or
  \<open>{"error": {"description": text}}\<close>.
\<close>

datatype entry = Success string json | Error string

definition state_path :: "string \<Rightarrow> string \<Rightarrow> string" where
  "state_path light_id field = ''/lights/'' @ light_id @ ''/state/'' @ field"

text \<open>
  Each part of \<open>_control_light\<close> gives the hub commands it sends and the entries it
  appends to \<open>result\<close>, or the exception it raises.
\<close>

definition control_on :: "device \<Rightarrow> string \<Rightarrow> body \<Rightarrow> hub_call list \<times> entry list" where
  "control_on device light_id data =
     (case data ''on'' of
        None \<Rightarrow> ([], [])
      | Some v \<Rightarrow>
          ([if is_scene device then switch_scene (idx device) v else switch_light (idx device) v],
           [Success (state_path light_id ''on'') v]))"

definition control_rgb :: "device \<Rightarrow> string \<Rightarrow> body \<Rightarrow> exn + hub_call list \<times> entry list" where
  "control_rgb device light_id data =
     (let hue = dict_get data ''hue''; sat = dict_get data ''sat'';
          bri = dict_get data ''bri''; ct = dict_get data ''ct''
      in if ct \<noteq> JNull then
           (case set_white_color (idx device) ct bri of
              Inl e \<Rightarrow> Inl e
            | Inr c \<Rightarrow>
                Inr ([c],
                  [Success (state_path light_id ''ct'') ct] @
                  (if bri \<noteq> JNull then [Success (state_path light_id ''bri'') bri] else [])))
         else if hue \<noteq> JNull \<or> sat \<noteq> JNull then
           (case set_rgb_color (idx device) hue sat bri of
              Inl e \<Rightarrow> Inl e
            | Inr c \<Rightarrow>
                Inr ([c],
                  (if hue \<noteq> JNull then [Success (state_path light_id ''hue'') hue] else []) @
                  (if sat \<noteq> JNull then [Success (state_path light_id ''sat'') sat] else []) @
                  (if bri \<noteq> JNull then [Success (state_path light_id ''bri'') bri] else [])))
         else if bri \<noteq> JNull then
           (case set_brightness (idx device) bri of
              Inl e \<Rightarrow> Inl e
            | Inr c \<Rightarrow> Inr ([c], [Success (state_path light_id ''bri'') bri]))
         else Inr ([], []))"

text \<open>\<open>level = int(data["bri"] / 2.54)\<close>, then \<open>set_dimmer\<close>.\<close>

definition dimmer_level :: "json \<Rightarrow> exn + int" where
  "dimmer_level bri =
     (case as_int bri of
        Inl e \<Rightarrow> Inl e
      | Inr n \<Rightarrow>
          (case float_div (PInt n) float_2_54 of Inl e \<Rightarrow> Inl e | Inr q \<Rightarrow> py_int (PFloat q)))"

definition control_dimmer :: "device \<Rightarrow> string \<Rightarrow> body \<Rightarrow> exn + hub_call list \<times> entry list" where
  "control_dimmer device light_id data =
     (case dimmer_level (dict_get data ''bri'') of
        Inl e \<Rightarrow> Inl e
      | Inr level \<Rightarrow>
          Inr ([set_dimmer (idx device) level],
               [Success (state_path light_id ''bri'') (dict_get data ''bri'')]))"

definition control_color :: "device \<Rightarrow> string \<Rightarrow> body \<Rightarrow> exn + hub_call list \<times> entry list" where
  "control_color device light_id data =
     (if dev_type device = JStr ''rgb'' \<and> \<not> is_scene device then control_rgb device light_id data
      else if dev_type device = JStr ''dimmer'' \<and> data ''bri'' \<noteq> None \<and> \<not> is_scene device then
        control_dimmer device light_id data
      else if (dev_type device = JStr ''switch'' \<or> dev_type device = JStr ''scene'') \<and>
              data ''bri'' \<noteq> None then
        Inr ([], [Success (state_path light_id ''bri'') (dict_get data ''bri'')])
      else Inr ([], []))"

text \<open>
  \<open>_control_light\<close>: the hub commands sent, in order, and the list returned or the
  exception raised.
\<close>

definition control_light :: "devices \<Rightarrow> string \<Rightarrow> body \<Rightarrow> hub_call list \<times> (exn + entry list)" where
  "control_light devs light_id data =
     (case map_of devs light_id of
        None \<Rightarrow> ([], Inr [Error ''Light not found''])
      | Some device \<Rightarrow>
          (case control_on device light_id data of
             (calls1, result1) \<Rightarrow>
               (case control_color device light_id data of
                  Inl e \<Rightarrow> (calls1, Inl e)
                | Inr (calls2, result2) \<Rightarrow> (calls1 @ calls2, Inr (result1 @ result2)))))"

text \<open>The commands that change colour or brightness, and the power commands.\<close>

definition is_color_call :: "hub_call \<Rightarrow> bool" where
  "is_color_call c = (fst c = Set_white_color \<or> fst c = Set_rgb_color \<or>
     fst c = Set_brightness \<or> fst c = Set_dimmer)"

definition is_power_call :: "hub_call \<Rightarrow> bool" where
  "is_power_call c = (fst c = Switch_light \<or> fst c = Switch_scene)"

section \<open>Discovery responder (class SSDPResponder)\<close>

type_synonym addr = "string \<times> nat"

record ssdp_responder =
  http_port :: nat
  bridge_ip :: string
  bridge_id :: string
  bridge_uuid :: string

text \<open>
  What one pass of the \<open>while self.running\<close> loop gets from \<open>sock.recvfrom(1024)\<close>:
  a datagram (its payload already decoded with \<open>errors='ignore'\<close>) and the sender,
  the one-second timeout, or another socket error.
\<close>

datatype recv = Datagram string addr | Timeout | SocketError

datatype sent = Sendto string addr

text \<open>The end of a header line: carriage return and line feed.\<close>

definition crlf :: string where
  "crlf = [CHR 0x0D, CHR 0x0A]"

definition send_response_text :: "ssdp_responder \<Rightarrow> string" where
  "send_response_text r =
     ''HTTP/1.1 200 OK'' @ crlf @
     ''HOST: 239.255.255.250:1900'' @ crlf @
     ''CACHE-CONTROL: max-age=100'' @ crlf @
     ''EXT:'' @ crlf @
     ''LOCATION: http://'' @ bridge_ip r @ '':'' @ str_nat (http_port r) @ ''/description.xml'' @ crlf @
     ''SERVER: Linux/3.14.0 UPnP/1.0 IpBridge/1.24.0'' @ crlf @
     ''hue-bridgeid: '' @ bridge_id r @ crlf @
     ''ST: urn:schemas-upnp-org:device:basic:1'' @ crlf @
     ''USN: uuid:'' @ bridge_uuid r @ ''::urn:schemas-upnp-org:device:basic:1'' @ crlf @
     crlf"

definition send_response :: "ssdp_responder \<Rightarrow> addr \<Rightarrow> sent list" where
  "send_response r a = [Sendto (send_response_text r) a]"

definition is_search :: "string \<Rightarrow> bool" where
  "is_search message =
     (str_in ''M-SEARCH'' message \<and>
      (str_in ''ssdp:all'' message \<or> str_in ''device:basic'' (lower message) \<or>
       str_in ''upnp:rootdevice'' message))"

text \<open>One pass of the loop body of \<open>_listen\<close>: the datagrams it sends.\<close>

fun listen_step :: "ssdp_responder \<Rightarrow> recv \<Rightarrow> sent list" where
  "listen_step r (Datagram message a) = (if is_search message then send_response r a else [])"
| "listen_step r Timeout = []"
| "listen_step r SocketError = []"

text \<open>The loop over everything received while the responder runs.\<close>

fun listen :: "ssdp_responder \<Rightarrow> recv list \<Rightarrow> sent list" where
  "listen r [] = []"
| "listen r (e # es) = listen_step r e @ listen r es"

section \<open>Properties of the discovery responder\<close>

lemma startswith_prefix: "startswith s p \<longleftrightarrow> prefix p s"
  by (induction s p rule: startswith.induct) auto

lemma str_in_sublist: "str_in needle s \<longleftrightarrow> sublist needle s"
  by (induction s) (auto simp: startswith_prefix sublist_Cons_right)

text \<open>
  C2, as the claim states it, fails: a datagram that holds the search-all token but not
  the method name \<open>M-SEARCH\<close> gets no reply, and neither does an \<open>M-SEARCH\<close> whose
  search-all token is written in capitals, although the token is there when case is
  ignored.
\<close>

theorem C2_discovery_counterexample:
  "sublist ''ssdp:all'' (lower ''NOTIFY * HTTP/1.1 NT: ssdp:all'') \<and>
   listen_step \<lparr>http_port = 80, bridge_ip = ''192.168.1.2'', bridge_id = ''001788FFFE000001'',
       bridge_uuid = ''2f402f80-da50-11e1-9b23-000000000001''\<rparr>
     (Datagram ''NOTIFY * HTTP/1.1 NT: ssdp:all'' (''192.168.1.9'', 50000)) = [] \<and>
   sublist ''ssdp:all'' (lower ''M-SEARCH * HTTP/1.1 ST: SSDP:ALL'') \<and>
   listen_step \<lparr>http_port = 80, bridge_ip = ''192.168.1.2'', bridge_id = ''001788FFFE000001'',
       bridge_uuid = ''2f402f80-da50-11e1-9b23-000000000001''\<rparr>
     (Datagram ''M-SEARCH * HTTP/1.1 ST: SSDP:ALL'' (''192.168.1.9'', 50000)) = []"
  by (simp add: str_in_sublist [symmetric] is_search_def lower_def lower_char_def)

text \<open>
  C2, amended: for every received datagram the responder sends exactly one unicast reply,
  to the sender, if and only if the message contains \<open>M-SEARCH\<close> and also contains
  \<open>ssdp:all\<close> or \<open>upnp:rootdevice\<close> as written, or \<open>device:basic\<close> in any mix of
  upper and lower case; every other datagram produces no reply.
\<close>

theorem C2_discovery_reply_iff:
  "listen_step r (Datagram message a) =
     (if sublist ''M-SEARCH'' message \<and>
         (sublist ''ssdp:all'' message \<or> sublist ''device:basic'' (lower message) \<or>
          sublist ''upnp:rootdevice'' message)
      then [Sendto (send_response_text r) a] else [])"
  by (simp add: is_search_def str_in_sublist send_response_def)

theorem C2_discovery_reply_iff_witness:
  "listen_step \<lparr>http_port = 80, bridge_ip = ''192.168.1.2'', bridge_id = ''001788FFFE000001'',
       bridge_uuid = ''2f402f80-da50-11e1-9b23-000000000001''\<rparr>
     (Datagram ''M-SEARCH * HTTP/1.1 ST: urn:schemas-upnp-org:device:Basic:1'' (''192.168.1.9'', 50000))
   = [Sendto (send_response_text \<lparr>http_port = 80, bridge_ip = ''192.168.1.2'',
         bridge_id = ''001788FFFE000001'', bridge_uuid = ''2f402f80-da50-11e1-9b23-000000000001''\<rparr>)
       (''192.168.1.9'', 50000)]"
  using C2_discovery_reply_iff [of
      "\<lparr>http_port = 80, bridge_ip = ''192.168.1.2'', bridge_id = ''001788FFFE000001'',
        bridge_uuid = ''2f402f80-da50-11e1-9b23-000000000001''\<rparr>"
      "''M-SEARCH * HTTP/1.1 ST: urn:schemas-upnp-org:device:Basic:1''" "(''192.168.1.9'', 50000)"]
  by (simp add: str_in_sublist [symmetric] lower_def lower_char_def)

section \<open>Properties of rounding\<close>

text \<open>
  \<open>ilog2\<close> is the binary exponent; rounding moves a number by at most half a unit in the
  last of 53 bits; an integer below \<open>2 ^ 53\<close> is a double; and the quotient of two
  integers, rounded and then cut by \<open>int\<close>, is the integer quotient.
\<close>

lemma bitlen_rat_bounds:
  assumes "0 < p"
  shows "power_int (2::rat) (bitlen p - 1) \<le> of_int p" and "of_int p < power_int (2::rat) (bitlen p)"
proof -
  have b1: "1 \<le> bitlen p" using assms by (simp add: bitlen_alt_def)
  from bitlen_bounds [OF assms]
  have lo: "2 ^ nat (bitlen p - 1) \<le> p" and hi: "p < 2 ^ nat (bitlen p)" by simp_all
  have "power_int (2::rat) (bitlen p - 1) = 2 ^ nat (bitlen p - 1)"
    using b1 by (simp add: power_int_def)
  also have "\<dots> = of_int (2 ^ nat (bitlen p - 1))" by simp
  also have "\<dots> \<le> of_int p" using lo by (simp only: of_int_le_iff)
  finally show "power_int (2::rat) (bitlen p - 1) \<le> of_int p" .
  have "(of_int p :: rat) < of_int (2 ^ nat (bitlen p))" using hi by (simp only: of_int_less_iff)
  also have "\<dots> = 2 ^ nat (bitlen p)" by simp
  also have "\<dots> = power_int (2::rat) (bitlen p)" using b1 by (simp add: power_int_def)
  finally show "of_int p < power_int (2::rat) (bitlen p)" .
qed

lemma power_int_2_pos: "0 < power_int (2::rat) e"
  by (simp add: zero_less_power_int)

lemma power_int_2_add: "power_int (2::rat) (a + b) = power_int 2 a * power_int 2 b"
  by (simp add: power_int_add)

lemma ilog2_bounds:
  assumes "0 < x"
  shows "power_int 2 (ilog2 x) \<le> x" and "x < power_int 2 (ilog2 x + 1)"
proof -
  obtain p q where pq: "quotient_of x = (p, q)" by (cases "quotient_of x")
  then have q: "0 < q" by (rule quotient_of_denom_pos)
  have x: "x = of_int p / of_int q" using pq by (rule quotient_of_div)
  have p: "0 < p"
  proof (rule ccontr)
    assume "\<not> 0 < p"
    then have "(of_int p :: rat) \<le> 0" by simp
    then have "x \<le> 0" using q x by (simp add: divide_nonpos_pos)
    with assms show False by simp
  qed
  let ?P = "of_int p :: rat" and ?Q = "of_int q :: rat"
  let ?t = "bitlen p - bitlen q"
  have Q: "0 < ?Q" using q by simp
  have up: "x < power_int 2 (?t + 1)"
  proof -
    have "?P < power_int 2 (bitlen p)" using p by (rule bitlen_rat_bounds)
    also have "power_int (2::rat) (bitlen p) = power_int 2 (?t + 1) * power_int 2 (bitlen q - 1)"
      by (simp add: power_int_2_add [symmetric])
    also have "\<dots> \<le> power_int 2 (?t + 1) * ?Q"
      using bitlen_rat_bounds(1) [OF q] power_int_2_pos [of "?t + 1"]
      by (simp add: mult_le_cancel_left_pos)
    finally show ?thesis using Q x by (simp add: pos_divide_less_eq)
  qed
  have lo: "power_int 2 (?t - 1) < x"
  proof -
    have "power_int 2 (?t - 1) * ?Q < power_int 2 (?t - 1) * power_int 2 (bitlen q)"
      using bitlen_rat_bounds(2) [OF q] power_int_2_pos [of "?t - 1"]
      by (simp add: mult_less_cancel_left_pos)
    also have "\<dots> = power_int 2 (bitlen p - 1)"
      by (simp add: power_int_2_add [symmetric])
    also have "\<dots> \<le> ?P" using p by (rule bitlen_rat_bounds)
    finally show ?thesis using Q x by (simp add: pos_less_divide_eq)
  qed
  have il: "ilog2 x = (if x < power_int 2 ?t then ?t - 1 else ?t)"
    by (simp add: ilog2_def pq Let_def)
  show "power_int 2 (ilog2 x) \<le> x"
    using lo il by (auto simp: not_less)
  show "x < power_int 2 (ilog2 x + 1)"
    using up il by auto
qed

lemma round_half_even_err: "\<bar>of_int (round_half_even m) - m\<bar> \<le> 1 / 2"
proof -
  have "of_int \<lfloor>m\<rfloor> \<le> m" "m < of_int \<lfloor>m\<rfloor> + 1" by linarith+
  then show ?thesis
    by (auto simp: round_half_even_def Let_def abs_le_iff)
qed

lemma round_half_even_of_int: "round_half_even (of_int k) = k"
  by (simp add: round_half_even_def)

lemma fl_error: "\<bar>fl x - x\<bar> \<le> \<bar>x\<bar> / 2 ^ 53"
proof (cases "x = 0")
  case True
  then show ?thesis by (simp add: fl_def)
next
  case False
  define a where "a = \<bar>x\<bar>"
  define e where "e = ilog2 a - 52"
  define u where "u = power_int (2::rat) e"
  define m where "m = a / u"
  define r where "r = round_half_even m"
  have a: "0 < a" using False by (simp add: a_def)
  have u: "0 < u" by (simp add: u_def power_int_2_pos)
  have fl: "fl x = sgn x * of_int r * u"
    using False by (simp add: fl_def Let_def a_def e_def u_def m_def r_def)
  have x: "x = sgn x * (m * u)"
    using u by (simp add: m_def a_def mult_sgn_abs)
  have "fl x - x = sgn x * ((of_int r - m) * u)"
    by (subst fl, subst x) (simp add: algebra_simps)
  then have "\<bar>fl x - x\<bar> = \<bar>sgn x\<bar> * (\<bar>of_int r - m\<bar> * u)"
    using u by (simp add: abs_mult)
  also have "\<bar>sgn x\<bar> = 1" using False by (simp add: abs_sgn_eq)
  also have "1 * (\<bar>of_int r - m\<bar> * u) \<le> 1 / 2 * u"
    using round_half_even_err [of m] u by (simp add: r_def mult_right_mono)
  also have "1 / 2 * u \<le> a / 2 ^ 53"
  proof -
    have "power_int 2 (ilog2 a) \<le> a" using a by (rule ilog2_bounds)
    moreover have "power_int (2::rat) (ilog2 a) = u * 2 ^ 52"
      unfolding u_def e_def by (simp add: power_int_diff)
    ultimately show ?thesis by simp
  qed
  finally show ?thesis by (simp add: a_def)
qed

lemma fl_of_int:
  assumes "\<bar>n\<bar> < 2 ^ 53"
  shows "fl (of_int n) = of_int n"
proof (cases "n = 0")
  case True
  then show ?thesis by (simp add: fl_def)
next
  case False
  define a :: rat where "a = \<bar>of_int n\<bar>"
  define e where "e = ilog2 a - 52"
  have a: "0 < a" using False by (simp add: a_def)
  have a': "a = of_int \<bar>n\<bar>" by (simp add: a_def)
  have "power_int 2 (ilog2 a) \<le> a" using a by (rule ilog2_bounds)
  also have "a < of_int (2 ^ 53)" unfolding a' using assms by (simp only: of_int_less_iff)
  also have "(of_int (2 ^ 53) :: rat) = power_int 2 53" by simp
  finally have "ilog2 a < 53"
    by (rule power_int_le_imp_less_exp [rotated]) simp_all
  then have e: "e \<le> 0" by (simp add: e_def)
  define k where "k = nat (- e)"
  have pe: "power_int (2::rat) e = 1 / 2 ^ k"
    using e by (simp add: power_int_def k_def field_simps)
  have "a / power_int 2 e = of_int (\<bar>n\<bar> * 2 ^ k)"
    by (simp add: pe a')
  then have "round_half_even (a / power_int 2 e) = \<bar>n\<bar> * 2 ^ k"
    by (simp only: round_half_even_of_int)
  then have "fl (of_int n) = sgn (of_int n) * of_int (\<bar>n\<bar> * 2 ^ k) * (1 / 2 ^ k)"
    using False by (simp add: fl_def Let_def a_def [symmetric] e_def [symmetric] pe)
  also have "\<dots> = sgn (of_int n) * \<bar>of_int n\<bar>" by simp
  also have "\<dots> = of_int n" by (simp only: mult_sgn_abs)
  finally show ?thesis .
qed

lemma trunc_fl_gap:
  assumes "of_int q + g \<le> x" and "x \<le> of_int q + 1 - g" and "\<bar>x\<bar> / 2 ^ 53 < g" and "0 \<le> q"
  shows "trunc (fl x) = q"
proof -
  have "fl x - x \<le> \<bar>x\<bar> / 2 ^ 53"
    using fl_error [of x] by (rule abs_le_D1)
  moreover have "x - fl x \<le> \<bar>x\<bar> / 2 ^ 53"
    using abs_le_D2 [OF fl_error [of x]] by simp
  ultimately have "fl x - x \<le> \<bar>x\<bar> / 2 ^ 53" "x - fl x \<le> \<bar>x\<bar> / 2 ^ 53" by blast+
  with assms have lo: "of_int q < fl x" and hi: "fl x < of_int q + 1" by linarith+
  then have "\<lfloor>fl x\<rfloor> = q" by (simp add: floor_unique)
  moreover have "0 \<le> fl x" using lo assms(4) by (simp add: order.strict_implies_order
    order_trans [of 0 "of_int q"])
  ultimately show ?thesis by (simp add: trunc_def)
qed

lemma trunc_of_int: "trunc (of_int n) = n"
  by (simp add: trunc_def)

lemma trunc_fl_int_div:
  assumes "0 \<le> a" and "a < 2 ^ 53" and "0 < d"
  shows "trunc (fl (of_int a / of_int d)) = a div d"
proof (cases "a mod d = 0")
  case True
  then have "d * (a div d) = a" by (simp add: dvd_eq_mod_eq_0 [symmetric])
  then have "(of_int a :: rat) = of_int d * of_int (a div d)" by (metis of_int_mult)
  then have "(of_int a :: rat) / of_int d = of_int (a div d)"
    using assms(3) by simp
  moreover have "\<bar>a div d\<bar> < 2 ^ 53"
  proof -
    have "0 \<le> a div d" using assms by (simp add: pos_imp_zdiv_nonneg_iff)
    moreover have "a div d \<le> a"
    proof -
      have "0 \<le> a div d" using assms by (simp add: pos_imp_zdiv_nonneg_iff)
      then have "a div d * 1 \<le> a div d * d"
        using assms(3) by (intro mult_left_mono) simp_all
      with \<open>d * (a div d) = a\<close> show ?thesis by (simp add: mult.commute)
    qed
    ultimately show ?thesis using assms(2) by simp
  qed
  ultimately show ?thesis by (simp add: fl_of_int trunc_of_int)
next
  case False
  define q where "q = a div d"
  define r where "r = a mod d"
  have "0 \<le> a mod d" "a mod d < d"
    using assms(3) by (simp_all add: pos_mod_sign pos_mod_bound)
  with False have r: "1 \<le> r" "r \<le> d - 1"
    unfolding r_def by linarith+
  have a: "a = d * q + r" by (simp add: q_def r_def)
  have D: "0 < (of_int d :: rat)" using assms(3) by simp
  have x: "(of_int a :: rat) / of_int d = of_int q + of_int r / of_int d"
    using D by (simp add: a field_simps)
  have R1: "1 / of_int d \<le> (of_int r :: rat) / of_int d"
    using r(1) D by (simp add: divide_right_mono)
  have R2: "(of_int r :: rat) / of_int d \<le> 1 - 1 / of_int d"
  proof -
    have "(of_int r :: rat) \<le> of_int d - 1" using r(2) by (metis of_int_le_iff of_int_diff of_int_1)
    then show ?thesis using D by (simp add: field_simps)
  qed
  have q0: "0 \<le> q" using assms by (simp add: q_def pos_imp_zdiv_nonneg_iff)
  have small: "\<bar>(of_int a :: rat) / of_int d\<bar> / 2 ^ 53 < 1 / of_int d"
  proof -
    have "(of_int a :: rat) < of_int (2 ^ 53)" using assms(2) by (simp only: of_int_less_iff)
    then have "(of_int a :: rat) < 2 ^ 53" by simp
    moreover have "0 \<le> (of_int a :: rat)" using assms(1) by simp
    ultimately show ?thesis using D by (simp add: field_simps)
  qed
  show ?thesis
    unfolding q_def [symmetric]
    by (rule trunc_fl_gap [where g = "1 / of_int d"]) (use x R1 R2 small q0 in simp_all)
qed

section \<open>Properties of the conversions\<close>

lemma fl_abs_le: "\<bar>fl x\<bar> \<le> 2 * \<bar>x\<bar>"
proof -
  have "\<bar>fl x\<bar> - \<bar>x\<bar> \<le> \<bar>fl x - x\<bar>" by (rule abs_triangle_ineq2)
  also have "\<dots> \<le> \<bar>x\<bar> / 2 ^ 53" by (rule fl_error)
  also have "\<dots> \<le> \<bar>x\<bar>" by (simp add: field_simps)
  finally show ?thesis by simp
qed

lemma fl_no_overflow: "\<bar>x\<bar> < 2 ^ 1023 \<Longrightarrow> \<not> overflows (fl x)"
proof -
  assume "\<bar>x\<bar> < 2 ^ 1023"
  then have "2 * \<bar>x\<bar> < 2 * 2 ^ 1023" by (simp only: mult_strict_left_mono zero_less_numeral)
  also have "(2::rat) * 2 ^ 1023 = 2 ^ 1024" by simp
  finally have "\<bar>fl x\<bar> < 2 ^ 1024" using fl_abs_le [of x] by (rule le_less_trans [rotated])
  then show ?thesis by (simp only: overflows_def not_le)
qed

lemma small_fits: "\<bar>x\<bar> \<le> 2 ^ 53 \<Longrightarrow> \<bar>x :: rat\<bar> < 2 ^ 1023"
proof -
  assume "\<bar>x\<bar> \<le> 2 ^ 53"
  also have "(2::rat) ^ 53 < 2 ^ 1023" by (rule power_strict_increasing) simp_all
  finally show ?thesis .
qed

lemma to_float_int:
  assumes "\<bar>n\<bar> < 2 ^ 53"
  shows "to_float (PInt n) = Inr (of_int n)"
proof -
  have f: "fl (of_int n) = of_int n" using assms by (rule fl_of_int)
  have "\<bar>of_int n :: rat\<bar> = of_int \<bar>n\<bar>" by simp
  also have "\<dots> \<le> of_int (2 ^ 53)" using assms by (simp only: of_int_le_iff)
  also have "(of_int (2 ^ 53) :: rat) = 2 ^ 53" by simp
  finally have "\<not> overflows (fl (of_int n))"
    by (intro fl_no_overflow small_fits)
  then show ?thesis by (simp add: f)
qed

lemma fl_nonpos: "x \<le> 0 \<Longrightarrow> fl x \<le> 0"
proof -
  assume x: "x \<le> 0"
  have "fl x - x \<le> \<bar>x\<bar> / 2 ^ 53" using fl_error [of x] by (rule abs_le_D1)
  with x show ?thesis by simp
qed

lemma fl_ge_one: "1 + 1 / 2 ^ 52 \<le> x \<Longrightarrow> 1 \<le> fl x"
proof -
  assume x: "1 + 1 / 2 ^ 52 \<le> x"
  have "x - fl x \<le> \<bar>x\<bar> / 2 ^ 53" using abs_le_D2 [OF fl_error [of x]] by simp
  with x show ?thesis by simp
qed

lemma fl_overflow: "2 ^ 1025 \<le> \<bar>x\<bar> \<Longrightarrow> overflows (fl x)"
proof -
  assume x: "2 ^ 1025 \<le> \<bar>x\<bar>"
  have "\<bar>x\<bar> - \<bar>fl x\<bar> \<le> \<bar>fl x - x\<bar>"
    using abs_triangle_ineq2 [of x "fl x"] by (simp add: abs_minus_commute)
  also have "\<dots> \<le> \<bar>x\<bar> / 2 ^ 53" by (rule fl_error)
  also have "\<dots> \<le> \<bar>x\<bar> / 2" by (simp add: field_simps)
  finally have "\<bar>x\<bar> / 2 \<le> \<bar>fl x\<bar>" by simp
  moreover have "(2::rat) ^ 1025 = 2 * 2 ^ 1024" by simp
  ultimately have "2 ^ 1024 \<le> \<bar>fl x\<bar>" using x by linarith
  then show ?thesis by (simp only: overflows_def)
qed

lemma int_truediv_ok:
  "b \<noteq> 0 \<Longrightarrow> \<bar>(of_int a :: rat) / of_int b\<bar> < 2 ^ 1023 \<Longrightarrow>
   int_truediv a b = Inr (fl (of_int a / of_int b))"
  by (simp add: int_truediv_def fl_no_overflow)

lemma rat_of_int_fits: "\<bar>n\<bar> < 2 ^ 1023 \<Longrightarrow> \<bar>of_int n :: rat\<bar> < 2 ^ 1023"
proof -
  assume "\<bar>n\<bar> < 2 ^ 1023"
  then have "(of_int \<bar>n\<bar> :: rat) < of_int (2 ^ 1023)" by (simp only: of_int_less_iff)
  then show ?thesis by simp
qed

lemma scale_int_ok:
  assumes "\<bar>n\<bar> < 2 ^ 1023" and "0 < num" and "num \<le> den"
  shows "scale_int (JNum n) num den = Inr (trunc (fl (of_int (n * num) / of_int den)))"
proof -
  have den: "0 < den" using assms by simp
  have "(of_int num :: rat) \<le> of_int den" using assms(3) by (simp only: of_int_le_iff)
  then have r: "(of_int num :: rat) / of_int den \<le> 1" using den by simp
  have "\<bar>(of_int (n * num) :: rat) / of_int den\<bar> = \<bar>of_int n\<bar> * (of_int num / of_int den)"
    using assms(2) den by (simp add: abs_mult)
  also have "\<dots> \<le> \<bar>of_int n\<bar>" using r by (rule mult_left_le) simp
  also have "\<dots> < 2 ^ 1023" using assms(1) by (rule rat_of_int_fits)
  finally show ?thesis using den by (simp add: scale_int_def int_truediv_ok)
qed

lemma mired_quotient_fits:
  assumes "\<bar>ct\<bar> < 2 ^ 1023"
  shows "\<bar>(of_int (ct - 153) :: rat) / of_int (500 - 153)\<bar> < 2 ^ 1023"
proof -
  have c: "\<bar>of_int ct :: rat\<bar> < 2 ^ 1023" using assms by (rule rat_of_int_fits)
  have "\<bar>(of_int (ct - 153) :: rat) / of_int (500 - 153)\<bar> = \<bar>of_int ct - 153\<bar> / 347" by simp
  also have "\<dots> \<le> (\<bar>of_int ct\<bar> + 153) / 347" by (simp add: divide_right_mono abs_if)
  also have "\<dots> < 2 ^ 1023" using c by simp
  finally show ?thesis .
qed

lemma int_mul_ints: "int_mul (PInt a) (PInt b) = Inr (a * b)"
  by (simp add: int_mul_def)

lemma int_mul_255:
  assumes "\<bar>x\<bar> \<le> 2"
  shows "int_mul (PInt 255) (PFloat x) = Inr (trunc (fl (255 * x)))"
proof -
  have "to_float (PInt 255) = Inr (of_int 255)" by (rule to_float_int) simp
  moreover have "\<not> overflows (fl (255 * x))"
  proof (intro fl_no_overflow small_fits)
    have "\<bar>255 * x\<bar> \<le> 510" using assms by (simp add: abs_mult)
    also have "(510::rat) \<le> 2 ^ 53" by simp
    finally show "\<bar>255 * x\<bar> \<le> 2 ^ 53" .
  qed
  ultimately show ?thesis by (simp add: int_mul_def)
qed

lemma white_mix_low:
  assumes "ct \<le> 153" and "\<bar>ct\<bar> < 2 ^ 1023"
  shows "white_mix (JNum ct) = Inr (255, 0)"
proof -
  let ?x = "(of_int (ct - 153) :: rat) / of_int (500 - 153)"
  have "?x \<le> 0" using assms(1) by (simp add: divide_nonpos_pos)
  then have "fl ?x \<le> 0" by (rule fl_nonpos)
  moreover have "int_truediv (ct - 153) (500 - 153) = Inr (fl ?x)"
    by (rule int_truediv_ok) (use mired_quotient_fits [OF assms(2)] in simp_all)
  ultimately show ?thesis
    by (simp add: white_mix_def py_min_def py_max_def Let_def int_mul_ints)
qed

lemma white_mix_high:
  assumes "500 \<le> ct" and "\<bar>ct\<bar> < 2 ^ 1023"
  shows "white_mix (JNum ct) = Inr (0, 255)"
proof -
  let ?x = "(of_int (ct - 153) :: rat) / of_int (500 - 153)"
  have q: "1 \<le> fl ?x"
  proof (cases "ct = 500")
    case True
    then show ?thesis using fl_of_int [of 1] by simp
  next
    case False
    with assms have "348 \<le> ct - 153" by simp
    then have "(348 :: rat) \<le> of_int (ct - 153)" by (metis of_int_le_iff of_int_numeral)
    then have "1 + 1 / 2 ^ 52 \<le> ?x"
      by (simp add: field_simps)
    then show ?thesis by (rule fl_ge_one)
  qed
  then have "\<not> fl ?x < 1" by simp
  moreover have "int_truediv (ct - 153) (500 - 153) = Inr (fl ?x)"
    by (rule int_truediv_ok) (use mired_quotient_fits [OF assms(2)] in simp_all)
  ultimately show ?thesis
    by (simp add: white_mix_def py_min_def py_max_def Let_def int_mul_ints)
qed

lemma fl_inside_unit:
  fixes x f :: rat
  assumes "1 / 347 \<le> x" and "x \<le> 346 / 347" and "\<bar>f - x\<bar> \<le> \<bar>x\<bar> / 2 ^ 53"
  shows "0 < f \<and> f < 1"
proof -
  have "\<bar>x\<bar> \<le> 1" using assms(1,2) by simp
  then have "\<bar>x\<bar> / 2 ^ 53 \<le> 1 / 2 ^ 53" by (simp add: divide_right_mono)
  with assms(3) have d: "\<bar>f - x\<bar> \<le> 1 / 2 ^ 53" by (rule order_trans)
  then have d1: "f - x \<le> 1 / 2 ^ 53" by (rule abs_le_D1)
  have d2: "x - f \<le> 1 / 2 ^ 53" using abs_le_D2 [OF d] by simp
  from d1 d2 assms(1,2) show ?thesis by simp
qed

lemma white_mix_ok:
  assumes "\<bar>ct\<bar> < 2 ^ 1023"
  shows "\<exists>cw ww. white_mix (JNum ct) = Inr (cw, ww)"
proof -
  let ?x = "(of_int (ct - 153) :: rat) / of_int (500 - 153)"
  have d: "int_truediv (ct - 153) (500 - 153) = Inr (fl ?x)"
    by (rule int_truediv_ok) (use mired_quotient_fits [OF assms] in simp_all)
  show ?thesis
  proof (cases "0 < fl ?x \<and> fl ?x < 1")
    case True
    then have n: "py_max (PInt 0) (py_min (PInt 1) (PFloat (fl ?x))) = PFloat (fl ?x)"
      by (simp add: py_min_def py_max_def)
    have one: "to_float (PInt 1) = Inr (of_int 1)" by (rule to_float_int) simp
    have y: "\<bar>1 - fl ?x\<bar> \<le> 1" using True by (simp add: abs_if)
    have "\<bar>fl (1 - fl ?x)\<bar> \<le> 2 * \<bar>1 - fl ?x\<bar>" by (rule fl_abs_le)
    also have "\<dots> \<le> 2 * 1" using y by (intro mult_left_mono) simp_all
    finally have "\<bar>fl (1 - fl ?x)\<bar> \<le> 2" by simp
    then have a: "int_mul (PInt 255) (PFloat (fl (1 - fl ?x))) = Inr (trunc (fl (255 * fl (1 - fl ?x))))"
      by (rule int_mul_255)
    have "\<bar>fl ?x\<bar> \<le> 2" using True by (simp add: abs_if)
    then have b: "int_mul (PInt 255) (PFloat (fl ?x)) = Inr (trunc (fl (255 * fl ?x)))"
      by (rule int_mul_255)
    show ?thesis
      using d n one a b by (simp add: white_mix_def Let_def)
  next
    case False
    then have "ct \<le> 153 \<or> 500 \<le> ct"
    proof -
      have "\<not> (153 < ct \<and> ct < 500)"
      proof
        assume c: "153 < ct \<and> ct < 500"
        then have "1 \<le> ct - 153" "ct - 153 \<le> 346" by simp_all
        then have r: "(1 :: rat) \<le> of_int (ct - 153)" "(of_int (ct - 153) :: rat) \<le> 346"
          by (metis of_int_le_iff of_int_1, metis of_int_le_iff of_int_numeral)
        have lo: "1 / 347 \<le> ?x" and hi: "?x \<le> 346 / 347"
          using r by (simp_all add: field_simps)
        have "0 < fl ?x \<and> fl ?x < 1"
          using lo hi fl_error [of ?x] by (rule fl_inside_unit)
        with False show False by simp
      qed
      then show ?thesis by linarith
    qed
    then show ?thesis using white_mix_low [of ct] white_mix_high [of ct] assms by auto
  qed
qed

text \<open>
  Beyond the range of a double the division of \<open>set_white_color\<close> raises
  \<open>OverflowError\<close>, and no request is sent.
\<close>

lemma white_mix_overflow:
  assumes "2 ^ 1040 \<le> \<bar>ct\<bar>"
  shows "white_mix (JNum ct) = Inl OverflowError"
proof -
  let ?x = "(of_int (ct - 153) :: rat) / of_int (500 - 153)"
  have "(of_int (2 ^ 1040) :: rat) \<le> of_int \<bar>ct\<bar>" using assms by (simp only: of_int_le_iff)
  then have c: "(2 :: rat) ^ 1040 \<le> \<bar>of_int ct\<bar>" by simp
  have "\<bar>of_int ct :: rat\<bar> - 153 \<le> \<bar>of_int ct - 153\<bar>"
    using abs_triangle_ineq2 [of "of_int ct :: rat" 153] by simp
  then have "(\<bar>of_int ct :: rat\<bar> - 153) / 347 \<le> \<bar>?x\<bar>"
    by (simp add: divide_right_mono)
  moreover have "(2 :: rat) ^ 1025 \<le> (\<bar>of_int ct\<bar> - 153) / 347" using c by simp
  ultimately have "2 ^ 1025 \<le> \<bar>?x\<bar>" by (rule order_trans [rotated])
  then have "overflows (fl ?x)" by (rule fl_overflow)
  then show ?thesis by (simp add: white_mix_def int_truediv_def)
qed



lemma scale_int_floor:
  assumes "0 \<le> b" and "b \<le> 65535"
  shows "scale_int (JNum b) 100 254 = Inr (b * 100 div 254)"
proof -
  have "trunc (fl (of_int (b * 100) / of_int 254)) = b * 100 div 254"
    by (rule trunc_fl_int_div) (use assms in simp_all)
  moreover have "\<bar>(of_int (b * 100) :: rat) / of_int 254\<bar> < 2 ^ 1023"
    using assms by (intro small_fits) (simp add: abs_if)
  ultimately show ?thesis by (simp add: scale_int_def int_truediv_ok)
qed

lemma float_2_54_pos: "0 < float_2_54"
  by (simp add: float_2_54_def)

lemma dimmer_level_127: "trunc (fl (127 / float_2_54)) = 50"
  by code_simp

lemma dimmer_level_254: "trunc (fl (254 / float_2_54)) = 100"
  by code_simp

lemma level_to_bri_50: "trunc (fl (50 * float_2_54)) = 127"
  by code_simp

lemma level_to_bri_100: "trunc (fl (100 * float_2_54)) = 254"
  by code_simp

lemma div_2_54_gap:
  fixes B Q R :: rat
  assumes "B * 100 = 254 * Q + R" and "1 \<le> R" and "R \<le> 253" and "0 \<le> Q" and "Q \<le> 100"
  shows "Q + 1 / 300 \<le> B / float_2_54" and "B / float_2_54 \<le> Q + 1 - 1 / 300"
    and "\<bar>B / float_2_54\<bar> / 2 ^ 53 < 1 / 300"
proof -
  have B: "B = (254 * Q + R) / 100" using assms(1) by simp
  have "(Q + 1 / 300) * float_2_54 \<le> B"
    unfolding B float_2_54_def using assms by simp
  then show 1: "Q + 1 / 300 \<le> B / float_2_54"
    using float_2_54_pos by (simp add: pos_le_divide_eq)
  have "B \<le> (Q + 1 - 1 / 300) * float_2_54"
    unfolding B float_2_54_def using assms by simp
  then show 2: "B / float_2_54 \<le> Q + 1 - 1 / 300"
    using float_2_54_pos by (simp add: pos_divide_le_eq)
  from 1 2 assms show "\<bar>B / float_2_54\<bar> / 2 ^ 53 < 1 / 300" by simp
qed

lemma mul_2_54_gap:
  fixes P Q R :: rat
  assumes "P * 254 = 100 * Q + R" and "1 \<le> R" and "R \<le> 99" and "0 \<le> Q" and "Q \<le> 254"
    and "0 \<le> P" and "P \<le> 100"
  shows "Q + 1 / 200 \<le> P * float_2_54" and "P * float_2_54 \<le> Q + 1 - 1 / 200"
    and "\<bar>P * float_2_54\<bar> / 2 ^ 53 < 1 / 200"
proof -
  have Q: "Q = (P * 254 - R) / 100" using assms(1) by simp
  show 1: "Q + 1 / 200 \<le> P * float_2_54"
    unfolding Q float_2_54_def using assms by simp
  show 2: "P * float_2_54 \<le> Q + 1 - 1 / 200"
    unfolding Q float_2_54_def using assms by simp
  from 1 2 assms show "\<bar>P * float_2_54\<bar> / 2 ^ 53 < 1 / 200" by simp
qed

lemma mod254_cases:
  "list_all (\<lambda>b. b * 100 mod 254 = 0 \<longrightarrow> b = 0 \<or> b = 127 \<or> b = 254) [0..254]"
  by code_simp

lemma mod100_cases:
  "list_all (\<lambda>p. p * 254 mod 100 = 0 \<longrightarrow> p = 0 \<or> p = 50 \<or> p = 100) [0..100]"
  by code_simp

lemma dimmer_level_floor:
  assumes "0 \<le> b" and "b \<le> 254"
  shows "dimmer_level (JNum b) = Inr (b * 100 div 254)"
proof -
  have fb: "fl (of_int b) = of_int b"
    by (rule fl_of_int) (use assms in simp)
  have "trunc (fl (of_int b / float_2_54)) = b * 100 div 254"
  proof (cases "b * 100 mod 254 = 0")
    case True
    have mem: "b \<in> set [0..254]" using assms by simp
    have "\<forall>b \<in> set [0..254]. b * 100 mod 254 = 0 \<longrightarrow> b = 0 \<or> b = 127 \<or> b = 254"
      using mod254_cases by (simp only: list_all_iff)
    from bspec [OF this mem] True have "b = 0 \<or> b = 127 \<or> b = 254"
      by (rule mp)
    then show ?thesis
    proof (elim disjE)
      assume "b = 0"
      then show ?thesis by (simp add: fl_def trunc_def)
    next
      assume "b = 127"
      then show ?thesis using dimmer_level_127 by simp
    next
      assume "b = 254"
      then show ?thesis using dimmer_level_254 by simp
    qed
  next
    case False
    define q where "q = b * 100 div 254"
    define r where "r = b * 100 mod 254"
    have "0 \<le> b * 100 mod 254" "b * 100 mod 254 < 254" by simp_all
    with False have r: "1 \<le> r" "r \<le> 253" unfolding r_def by linarith+
    have q0: "0 \<le> q" using assms unfolding q_def by (simp add: pos_imp_zdiv_nonneg_iff)
    have "b * 100 div 254 \<le> 25400 div 254"
      by (rule zdiv_mono1) (use assms in simp_all)
    then have q1: "q \<le> 100" by (simp add: q_def)
    have "b * 100 = 254 * q + r"
      unfolding q_def r_def by (rule mult_div_mod_eq [symmetric])
    then have "(of_int (b * 100) :: rat) = of_int (254 * q + r)" by (simp only:)
    then have e: "(of_int b :: rat) * 100 = 254 * of_int q + of_int r" by simp
    have r': "(1 :: rat) \<le> of_int r" "(of_int r :: rat) \<le> 253"
      using r by simp_all
    have q': "(0 :: rat) \<le> of_int q" "(of_int q :: rat) \<le> 100"
      using q0 q1 by simp_all
    show ?thesis
      unfolding q_def [symmetric]
      by (rule trunc_fl_gap [where g = "1 / 300"])
        (use div_2_54_gap [OF e r' q'] q0 in simp_all)
  qed
  moreover have "to_float (PInt b) = Inr (of_int b)"
    by (rule to_float_int) (use assms in simp)
  moreover have "\<not> overflows (fl (of_int b / float_2_54))"
  proof (intro fl_no_overflow small_fits)
    have "\<bar>(of_int b :: rat) / float_2_54\<bar> \<le> \<bar>of_int b\<bar>"
      by (simp add: float_2_54_def field_simps)
    also have "\<dots> \<le> 2 ^ 53" using assms by simp
    finally show "\<bar>(of_int b :: rat) / float_2_54\<bar> \<le> 2 ^ 53" .
  qed
  ultimately show ?thesis by (simp add: dimmer_level_def float_div_def)
qed

lemma level_to_bri_floor:
  assumes "0 \<le> p" and "p \<le> 100"
  shows "level_to_bri (JNum p) = Inr (p * 254 div 100)"
proof -
  have fp: "fl (of_int p) = of_int p"
    by (rule fl_of_int) (use assms in simp)
  have "trunc (fl (of_int p * float_2_54)) = p * 254 div 100"
  proof (cases "p * 254 mod 100 = 0")
    case True
    have mem: "p \<in> set [0..100]" using assms by simp
    have "\<forall>p \<in> set [0..100]. p * 254 mod 100 = 0 \<longrightarrow> p = 0 \<or> p = 50 \<or> p = 100"
      using mod100_cases by (simp only: list_all_iff)
    from bspec [OF this mem] True have "p = 0 \<or> p = 50 \<or> p = 100"
      by (rule mp)
    then show ?thesis
    proof (elim disjE)
      assume "p = 0"
      then show ?thesis by (simp add: fl_def trunc_def)
    next
      assume "p = 50"
      then show ?thesis using level_to_bri_50 by simp
    next
      assume "p = 100"
      then show ?thesis using level_to_bri_100 by simp
    qed
  next
    case False
    define q where "q = p * 254 div 100"
    define r where "r = p * 254 mod 100"
    have "0 \<le> p * 254 mod 100" "p * 254 mod 100 < 100" by simp_all
    with False have r: "1 \<le> r" "r \<le> 99" unfolding r_def by linarith+
    have q0: "0 \<le> q" using assms unfolding q_def by (simp add: pos_imp_zdiv_nonneg_iff)
    have "p * 254 div 100 \<le> 25400 div 100"
      by (rule zdiv_mono1) (use assms in simp_all)
    then have q1: "q \<le> 254" by (simp add: q_def)
    have "p * 254 = 100 * q + r"
      unfolding q_def r_def by (rule mult_div_mod_eq [symmetric])
    then have "(of_int (p * 254) :: rat) = of_int (100 * q + r)" by (simp only:)
    then have e: "(of_int p :: rat) * 254 = 100 * of_int q + of_int r" by simp
    have r': "(1 :: rat) \<le> of_int r" "(of_int r :: rat) \<le> 99"
      using r by simp_all
    have q': "(0 :: rat) \<le> of_int q" "(of_int q :: rat) \<le> 254"
      using q0 q1 by simp_all
    have p': "(0 :: rat) \<le> of_int p" "(of_int p :: rat) \<le> 100"
      using assms by simp_all
    show ?thesis
      unfolding q_def [symmetric]
      by (rule trunc_fl_gap [where g = "1 / 200"])
        (use mul_2_54_gap [OF e r' q' p'] q0 in simp_all)
  qed
  moreover have "to_float (PInt p) = Inr (of_int p)"
    by (rule to_float_int) (use assms in simp)
  moreover have "\<not> overflows (fl (of_int p * float_2_54))"
  proof (intro fl_no_overflow small_fits)
    have "\<bar>(of_int p :: rat) * float_2_54\<bar> \<le> \<bar>of_int p\<bar> * 3"
      by (simp add: float_2_54_def abs_mult)
    also have "\<dots> \<le> 2 ^ 53" using assms by simp
    finally show "\<bar>(of_int p :: rat) * float_2_54\<bar> \<le> 2 ^ 53" .
  qed
  ultimately show ?thesis by (simp add: level_to_bri_def int_mul_def)
qed

text \<open>
  C1, as the claim states it, fails: the code cuts the fraction off with \<open>int\<close> where
  the claim rounds. For the brightness 2, \<open>int(2 * 100 / 254)\<close> and \<open>int(2 / 2.54)\<close> are
  0 and \<open>round(2 * 100 / 254)\<close> is 1; for the level 1, \<open>int(1 * 2.54)\<close> is 2 and
  \<open>round(1 * 254 / 100)\<close> is 3.
\<close>

text \<open>
  C1, as the claim states it, fails: the code cuts the fraction off with \<open>int\<close> where
  the claim rounds. For the brightness 2, \<open>int(2 * 100 / 254)\<close> and \<open>int(2 / 2.54)\<close> are
  0 and \<open>round(2 * 100 / 254)\<close> is 1; for the level 1, \<open>int(1 * 2.54)\<close> is 2 and
  \<open>round(1 * 254 / 100)\<close> is 3.
\<close>

theorem C1_brightness_counterexample:
  "scale_int (JNum 2) 100 254 = Inr 0 \<and> round_half_even (fl (2 * 100 / 254)) = 1 \<and>
   dimmer_level (JNum 2) = Inr 0 \<and>
   level_to_bri (JNum 1) = Inr 2 \<and> round_half_even (fl (1 * 254 / 100)) = 3"
proof -
  have "round_half_even (fl (2 * 100 / 254)) = 1" by code_simp
  moreover have "round_half_even (fl (1 * 254 / 100)) = 3" by code_simp
  ultimately show ?thesis
    using scale_int_floor [of 2] dimmer_level_floor [of 2] level_to_bri_floor [of 1] by simp
qed

text \<open>
  C1, amended: for every brightness \<open>b\<close> from 0 to 254 the conversion to percent,
  \<open>int(b * 100 / 254)\<close> of \<open>set_brightness\<close> and \<open>set_rgb_color\<close> and \<open>int(b / 2.54)\<close> of
  the dimmer branch, returns \<open>b * 100 / 254\<close> with its fraction cut off; and for every
  level \<open>p\<close> from 0 to 100 the inverse conversion of \<open>get_device_status\<close>,
  \<open>int(p * 2.54)\<close>, returns \<open>p * 254 / 100\<close> with its fraction cut off.
\<close>

theorem C1_brightness_truncates:
  assumes "0 \<le> b" and "b \<le> 254" and "0 \<le> p" and "p \<le> 100"
  shows "scale_int (JNum b) 100 254 = Inr (b * 100 div 254) \<and>
         dimmer_level (JNum b) = Inr (b * 100 div 254) \<and>
         level_to_bri (JNum p) = Inr (p * 254 div 100)"
  using assms by (simp add: scale_int_floor dimmer_level_floor level_to_bri_floor)

theorem C1_brightness_truncates_witness:
  "scale_int (JNum 150) 100 254 = Inr 59 \<and> dimmer_level (JNum 150) = Inr 59 \<and>
   level_to_bri (JNum 59) = Inr 149"
  using C1_brightness_truncates [of 150 59] by simp

text \<open>
  C5: for every brightness \<open>b\<close> from 0 to 254, converting to percent, back to the Hue
  scale and to percent again gives a value that differs from the first percent value
  by at most 1, with the conversions of \<open>set_brightness\<close> and \<open>get_device_status\<close>.
\<close>

theorem C5_round_trip:
  assumes "0 \<le> b" and "b \<le> 254"
  shows "\<exists>p h p'. scale_int (JNum b) 100 254 = Inr p \<and> level_to_bri (JNum p) = Inr h \<and>
           scale_int (JNum h) 100 254 = Inr p' \<and> \<bar>p' - p\<bar> \<le> 1"
proof -
  define p where "p = b * 100 div 254"
  define h where "h = p * 254 div 100"
  define p' where "p' = h * 100 div 254"
  have p: "0 \<le> p" "p \<le> 100" using assms unfolding p_def by linarith+
  have h: "0 \<le> h" "h \<le> 254" using p unfolding h_def by linarith+
  have 1: "scale_int (JNum b) 100 254 = Inr p"
    unfolding p_def by (rule scale_int_floor) (use assms in simp_all)
  have 2: "level_to_bri (JNum p) = Inr h"
    unfolding h_def using p by (rule level_to_bri_floor)
  have 3: "scale_int (JNum h) 100 254 = Inr p'"
    unfolding p'_def by (rule scale_int_floor) (use h in simp_all)
  have "\<bar>p' - p\<bar> \<le> 1" unfolding p'_def h_def by linarith
  with 1 2 3 show ?thesis by blast
qed

theorem C5_round_trip_witness:
  "\<exists>p h p'. scale_int (JNum 2) 100 254 = Inr p \<and> level_to_bri (JNum p) = Inr h \<and>
     scale_int (JNum h) 100 254 = Inr p' \<and> \<bar>p' - p\<bar> \<le> 1"
  using C5_round_trip [of 2] by simp

section \<open>Properties of light control\<close>

lemma opt_param_num:
  assumes "\<bar>n\<bar> < 2 ^ 1023" and "0 < num" and "num \<le> den"
  shows "\<exists>v. opt_param key (JNum n) num den = Inr [(key, JNum v)]"
  using scale_int_ok [OF assms] by (simp add: opt_param_def)

lemma bri_level_num:
  assumes "\<bar>b\<bar> < 2 ^ 1023"
  shows "\<exists>l. bri_level (JNum b) = Inr l"
  using scale_int_ok [OF assms, of 100 254] by (simp add: bri_level_def)

lemma set_white_color_nums:
  assumes "\<bar>c\<bar> < 2 ^ 1023" and "\<bar>b\<bar> < 2 ^ 1023"
  shows "\<exists>ps. set_white_color i (JNum c) (JNum b) = Inr (Set_white_color, ps)"
  using white_mix_ok [OF assms(1)] bri_level_num [OF assms(2)]
  by (auto simp: set_white_color_def)

lemma set_rgb_color_nums:
  assumes "\<bar>h\<bar> < 2 ^ 1023" and "\<bar>s\<bar> < 2 ^ 1023" and "\<bar>b\<bar> < 2 ^ 1023"
  shows "\<exists>ps. set_rgb_color i (JNum h) (JNum s) (JNum b) = Inr (Set_rgb_color, ps)"
proof -
  obtain vh where "opt_param ''hue'' (JNum h) 360 65535 = Inr [(''hue'', JNum vh)]"
    using opt_param_num [OF assms(1), of 360 65535 "''hue''"] by auto
  moreover obtain vs where "opt_param ''saturation'' (JNum s) 100 254 = Inr [(''saturation'', JNum vs)]"
    using opt_param_num [OF assms(2), of 100 254 "''saturation''"] by auto
  moreover obtain vb where "opt_param ''brightness'' (JNum b) 100 254 = Inr [(''brightness'', JNum vb)]"
    using opt_param_num [OF assms(3), of 100 254 "''brightness''"] by auto
  ultimately show ?thesis by (simp add: set_rgb_color_def)
qed

lemma set_rgb_color_null_hue:
  assumes "\<bar>s\<bar> < 2 ^ 1023" and "\<bar>b\<bar> < 2 ^ 1023"
  shows "\<exists>ps. set_rgb_color i JNull (JNum s) (JNum b) = Inr (Set_rgb_color, ps)"
proof -
  obtain vs where "opt_param ''saturation'' (JNum s) 100 254 = Inr [(''saturation'', JNum vs)]"
    using opt_param_num [OF assms(1), of 100 254 "''saturation''"] by auto
  moreover obtain vb where "opt_param ''brightness'' (JNum b) 100 254 = Inr [(''brightness'', JNum vb)]"
    using opt_param_num [OF assms(2), of 100 254 "''brightness''"] by auto
  ultimately show ?thesis by (simp add: set_rgb_color_def opt_param_def)
qed

text \<open>A hue too large for a double: the scaling raises \<open>OverflowError\<close>.\<close>

lemma set_rgb_color_overflow:
  assumes "2 ^ 1040 \<le> \<bar>h\<bar>"
  shows "set_rgb_color i (JNum h) s b = Inl OverflowError"
proof -
  let ?x = "(of_int (h * 360) :: rat) / of_int 65535"
  have "(of_int (2 ^ 1040) :: rat) \<le> of_int \<bar>h\<bar>" using assms by (simp only: of_int_le_iff)
  then have c: "(2 :: rat) ^ 1040 \<le> \<bar>of_int h\<bar>" by simp
  have "\<bar>?x\<bar> = \<bar>of_int h\<bar> * (360 / 65535)" by (simp add: abs_mult)
  moreover have "(2 :: rat) ^ 1025 \<le> \<bar>of_int h\<bar> * (360 / 65535)" using c by simp
  ultimately have "2 ^ 1025 \<le> \<bar>?x\<bar>" by simp
  then have "overflows (fl ?x)" by (rule fl_overflow)
  then have "scale_int (JNum h) 360 65535 = Inl OverflowError"
    by (simp add: scale_int_def int_truediv_def)
  then show ?thesis by (simp add: set_rgb_color_def opt_param_def)
qed

lemma control_rgb_ct:
  assumes "data ''ct'' = Some (JNum c)" and "data ''bri'' = Some (JNum b)"
    and "\<bar>c\<bar> < 2 ^ 1023" and "\<bar>b\<bar> < 2 ^ 1023"
  shows "\<exists>ps. control_rgb device light_id data =
           Inr ([(Set_white_color, ps)],
                [Success (state_path light_id ''ct'') (JNum c),
                 Success (state_path light_id ''bri'') (JNum b)])"
proof -
  obtain ps where "set_white_color (idx device) (JNum c) (JNum b) = Inr (Set_white_color, ps)"
    using set_white_color_nums [OF assms(3,4)] by auto
  then show ?thesis
    using assms(1,2) by (auto simp: control_rgb_def dict_get_def)
qed

lemma control_color_at_most_one:
  "control_color device light_id data = Inr (calls, res) \<Longrightarrow> length calls \<le> 1"
  by (auto simp: control_color_def control_rgb_def control_dimmer_def Let_def
      split: if_splits sum.splits)

lemma control_on_calls: "filter is_color_call (fst (control_on device light_id data)) = []"
  by (simp add: control_on_def is_color_call_def switch_light_def switch_scene_def
      split: option.splits)

lemma control_light_color_calls:
  "length (filter is_color_call (fst (control_light devs light_id data))) \<le> 1"
proof (cases "map_of devs light_id")
  case None
  then show ?thesis by (simp add: control_light_def)
next
  case (Some device)
  obtain calls1 result1 where on: "control_on device light_id data = (calls1, result1)"
    by (cases "control_on device light_id data")
  have c1: "filter is_color_call calls1 = []"
    using control_on_calls [of device light_id data] on by simp
  show ?thesis
  proof (cases "control_color device light_id data")
    case (Inl e)
    with Some on c1 show ?thesis by (simp add: control_light_def)
  next
    case (Inr r)
    obtain calls2 result2 where r: "r = (calls2, result2)" by (cases r)
    have "length calls2 \<le> 1"
      using control_color_at_most_one Inr r by blast
    moreover have "length (filter is_color_call calls2) \<le> length calls2"
      by (rule length_filter_le)
    ultimately have "length (filter is_color_call calls2) \<le> 1"
      by (rule order_trans [rotated])
    then show ?thesis
      using Some on c1 Inr r by (simp add: control_light_def)
  qed
qed

text \<open>
  C4: a PUT for a light id that is not a key of the device registry answers with exactly
  one error entry, "Light not found", and sends no command to the hub.
\<close>

theorem C4_unknown_light:
  "map_of devs light_id = None \<Longrightarrow>
   control_light devs light_id data = ([], Inr [Error ''Light not found''])"
  by (simp add: control_light_def)

theorem C4_unknown_light_witness:
  "control_light [(''1'', \<lparr>name = JStr ''Plug'', idx = JNum 12, dev_type = JStr ''switch'',
      is_scene = False, description = None\<rparr>)] ''7'' [''on'' \<mapsto> JBool True]
   = ([], Inr [Error ''Light not found''])"
  using C4_unknown_light [of "[(''1'', \<lparr>name = JStr ''Plug'', idx = JNum 12, dev_type = JStr ''switch'',
      is_scene = False, description = None\<rparr>)]" "''7''" "[''on'' \<mapsto> JBool True]"]
  by simp

text \<open>
  C9: for a light of type \<open>switch\<close> or \<open>scene\<close> and a body with the key \<open>bri\<close>, the
  response ends with a success entry that echoes \<open>bri\<close>; the only command sent to the
  hub is the power command of the key \<open>on\<close>, when the body has it: none is sent for
  \<open>bri\<close>.
\<close>

theorem C9_switch_bri_acknowledged:
  assumes "map_of devs light_id = Some device"
    and "dev_type device = JStr ''switch'' \<or> dev_type device = JStr ''scene''"
    and "data ''bri'' = Some b"
  shows "control_light devs light_id data =
           (fst (control_on device light_id data),
            Inr (snd (control_on device light_id data) @ [Success (state_path light_id ''bri'') b])) \<and>
         filter is_color_call (fst (control_light devs light_id data)) = [] \<and>
         length (fst (control_light devs light_id data)) = (if data ''on'' = None then 0 else 1)"
  using assms
  by (auto simp: control_light_def control_color_def dict_get_def control_on_def is_color_call_def
      switch_light_def switch_scene_def split: prod.splits option.splits)

theorem C9_switch_bri_acknowledged_witness:
  "control_light [(''1'', \<lparr>name = JStr ''Plug'', idx = JNum 12, dev_type = JStr ''switch'',
      is_scene = False, description = None\<rparr>)] ''1'' [''on'' \<mapsto> JBool True, ''bri'' \<mapsto> JNum 254]
   = ([switch_light (JNum 12) (JBool True)],
      Inr [Success ''/lights/1/state/on'' (JBool True), Success ''/lights/1/state/bri'' (JNum 254)])"
  using C9_switch_bri_acknowledged [of "[(''1'', \<lparr>name = JStr ''Plug'', idx = JNum 12,
      dev_type = JStr ''switch'', is_scene = False, description = None\<rparr>)]" "''1''"
      "\<lparr>name = JStr ''Plug'', idx = JNum 12, dev_type = JStr ''switch'', is_scene = False,
        description = None\<rparr>"
      "[''on'' \<mapsto> JBool True, ''bri'' \<mapsto> JNum 254]" "JNum 254"]
  by (simp add: control_on_def state_path_def)

text \<open>
  C3, as the claim states it, fails: a body that contains \<open>on\<close>, \<open>hue\<close>, \<open>sat\<close> and
  \<open>bri\<close> and also \<open>ct\<close> takes the colour temperature branch. The response has three
  entries (\<open>on\<close>, \<open>ct\<close>, \<open>bri\<close>) and the hub gets a white command, no colour command.
  A body whose \<open>hue\<close> is \<open>null\<close> gets no entry for \<open>hue\<close>. And a \<open>hue\<close> too large
  for a double, here \<open>10 ^ 400\<close>, raises \<open>OverflowError\<close> after the power command: no
  colour command is sent and no list is returned.
\<close>

theorem C3_rgb_put_counterexample:
  "snd (control_light
      [(''1'', \<lparr>name = JStr ''Lamp'', idx = JNum 10, dev_type = JStr ''rgb'', is_scene = False,
          description = None\<rparr>)] ''1''
      [''on'' \<mapsto> JBool True, ''hue'' \<mapsto> JNum 10000, ''sat'' \<mapsto> JNum 200, ''bri'' \<mapsto> JNum 150,
       ''ct'' \<mapsto> JNum 300])
    = Inr [Success ''/lights/1/state/on'' (JBool True), Success ''/lights/1/state/ct'' (JNum 300),
           Success ''/lights/1/state/bri'' (JNum 150)] \<and>
   map fst (fst (control_light
      [(''1'', \<lparr>name = JStr ''Lamp'', idx = JNum 10, dev_type = JStr ''rgb'', is_scene = False,
          description = None\<rparr>)] ''1''
      [''on'' \<mapsto> JBool True, ''hue'' \<mapsto> JNum 10000, ''sat'' \<mapsto> JNum 200, ''bri'' \<mapsto> JNum 150,
       ''ct'' \<mapsto> JNum 300]))
    = [Switch_light, Set_white_color] \<and>
   snd (control_light
      [(''1'', \<lparr>name = JStr ''Lamp'', idx = JNum 10, dev_type = JStr ''rgb'', is_scene = False,
          description = None\<rparr>)] ''1''
      [''on'' \<mapsto> JBool True, ''hue'' \<mapsto> JNull, ''sat'' \<mapsto> JNum 200, ''bri'' \<mapsto> JNum 150])
    = Inr [Success ''/lights/1/state/on'' (JBool True), Success ''/lights/1/state/sat'' (JNum 200),
           Success ''/lights/1/state/bri'' (JNum 150)] \<and>
   control_light
      [(''1'', \<lparr>name = JStr ''Lamp'', idx = JNum 10, dev_type = JStr ''rgb'', is_scene = False,
          description = None\<rparr>)] ''1''
      [''on'' \<mapsto> JBool True, ''hue'' \<mapsto> JNum (10 ^ 400), ''sat'' \<mapsto> JNum 200, ''bri'' \<mapsto> JNum 150]
    = ([switch_light (JNum 10) (JBool True)], Inl OverflowError)"
proof -
  let ?data = "[''on'' \<mapsto> JBool True, ''hue'' \<mapsto> JNum 10000, ''sat'' \<mapsto> JNum 200,
    ''bri'' \<mapsto> JNum 150, ''ct'' \<mapsto> JNum 300]"
  let ?dev = "\<lparr>name = JStr ''Lamp'', idx = JNum 10, dev_type = JStr ''rgb'', is_scene = False,
          description = None\<rparr>"
  obtain ps where "control_rgb ?dev ''1'' ?data =
      Inr ([(Set_white_color, ps)],
           [Success (state_path ''1'' ''ct'') (JNum 300), Success (state_path ''1'' ''bri'') (JNum 150)])"
    using control_rgb_ct [of ?data 300 150 ?dev "''1''"] by auto
  then have 1: "control_light [(''1'', ?dev)] ''1'' ?data =
      ([switch_light (JNum 10) (JBool True), (Set_white_color, ps)],
       Inr [Success ''/lights/1/state/on'' (JBool True), Success ''/lights/1/state/ct'' (JNum 300),
            Success ''/lights/1/state/bri'' (JNum 150)])"
    by (simp add: control_light_def control_color_def control_on_def state_path_def)
  obtain ps' where "set_rgb_color (JNum 10) JNull (JNum 200) (JNum 150) = Inr (Set_rgb_color, ps')"
    using set_rgb_color_null_hue [of 200 150 "JNum 10"] by auto
  then have 2: "snd (control_light [(''1'', ?dev)] ''1''
      [''on'' \<mapsto> JBool True, ''hue'' \<mapsto> JNull, ''sat'' \<mapsto> JNum 200, ''bri'' \<mapsto> JNum 150])
    = Inr [Success ''/lights/1/state/on'' (JBool True), Success ''/lights/1/state/sat'' (JNum 200),
           Success ''/lights/1/state/bri'' (JNum 150)]"
    by (simp add: control_light_def control_color_def control_on_def state_path_def
        control_rgb_def dict_get_def)
  have "(2 :: int) ^ 1040 \<le> \<bar>10 ^ 400\<bar>" by simp
  then have "set_rgb_color (JNum 10) (JNum (10 ^ 400)) (JNum 200) (JNum 150) = Inl OverflowError"
    by (rule set_rgb_color_overflow)
  then have 3: "control_light [(''1'', ?dev)] ''1''
      [''on'' \<mapsto> JBool True, ''hue'' \<mapsto> JNum (10 ^ 400), ''sat'' \<mapsto> JNum 200, ''bri'' \<mapsto> JNum 150]
    = ([switch_light (JNum 10) (JBool True)], Inl OverflowError)"
    by (simp add: control_light_def control_color_def control_on_def control_rgb_def dict_get_def
        del: power_numeral)
  from 1 2 3 show ?thesis by (simp add: switch_light_def del: power_numeral)
qed

text \<open>
  C3, amended: for a registered light of type \<open>rgb\<close> that is not a scene, a PUT whose
  body has \<open>on\<close>, integer \<open>hue\<close>, \<open>sat\<close> and \<open>bri\<close> that a double can hold (a magnitude
  below \<open>2 ^ 1023\<close>), and no \<open>ct\<close>, produces exactly four success entries (\<open>on\<close>,
  \<open>hue\<close>, \<open>sat\<close>, \<open>bri\<close>, in this order) and sends the hub exactly one power command
  and one colour command. And whatever the registry, the
  light id and the body are, a PUT sends at most one colour or brightness command.
\<close>

theorem C3_rgb_put:
  assumes "map_of devs light_id = Some device"
    and "dev_type device = JStr ''rgb''" and "\<not> is_scene device"
    and "data ''on'' = Some v" and "data ''hue'' = Some (JNum h)" and "data ''sat'' = Some (JNum s)"
    and "data ''bri'' = Some (JNum b)" and "data ''ct'' = None"
    and "\<bar>h\<bar> < 2 ^ 1023" and "\<bar>s\<bar> < 2 ^ 1023" and "\<bar>b\<bar> < 2 ^ 1023"
  shows "(\<exists>ps. control_light devs light_id data =
          ([switch_light (idx device) v, (Set_rgb_color, ps)],
           Inr [Success (state_path light_id ''on'') v, Success (state_path light_id ''hue'') (JNum h),
                Success (state_path light_id ''sat'') (JNum s), Success (state_path light_id ''bri'') (JNum b)])) \<and>
         length (filter is_power_call (fst (control_light devs light_id data))) = 1 \<and>
         length (filter is_color_call (fst (control_light devs light_id data))) = 1 \<and>
         length (filter is_color_call (fst (control_light devs' light_id' data'))) \<le> 1"
proof -
  obtain ps where "set_rgb_color (idx device) (JNum h) (JNum s) (JNum b) = Inr (Set_rgb_color, ps)"
    using set_rgb_color_nums [OF assms(9,10,11)] by auto
  then have "control_light devs light_id data =
          ([switch_light (idx device) v, (Set_rgb_color, ps)],
           Inr [Success (state_path light_id ''on'') v, Success (state_path light_id ''hue'') (JNum h),
                Success (state_path light_id ''sat'') (JNum s), Success (state_path light_id ''bri'') (JNum b)])"
    using assms(1-8)
    by (simp add: control_light_def control_color_def control_rgb_def dict_get_def control_on_def)
  then show ?thesis
    using control_light_color_calls [of devs' light_id' data']
    by (simp add: is_power_call_def is_color_call_def switch_light_def)
qed

theorem C3_rgb_put_witness:
  "\<exists>ps. control_light
      [(''1'', \<lparr>name = JStr ''Lamp'', idx = JNum 10, dev_type = JStr ''rgb'', is_scene = False,
          description = None\<rparr>)] ''1''
      [''on'' \<mapsto> JBool True, ''hue'' \<mapsto> JNum 10000, ''sat'' \<mapsto> JNum 200, ''bri'' \<mapsto> JNum 150]
    = ([switch_light (JNum 10) (JBool True), (Set_rgb_color, ps)],
       Inr [Success ''/lights/1/state/on'' (JBool True), Success ''/lights/1/state/hue'' (JNum 10000),
            Success ''/lights/1/state/sat'' (JNum 200), Success ''/lights/1/state/bri'' (JNum 150)])"
  using C3_rgb_put [of "[(''1'', \<lparr>name = JStr ''Lamp'', idx = JNum 10, dev_type = JStr ''rgb'',
      is_scene = False, description = None\<rparr>)]" "''1''"
      "\<lparr>name = JStr ''Lamp'', idx = JNum 10, dev_type = JStr ''rgb'', is_scene = False,
          description = None\<rparr>"
      "[''on'' \<mapsto> JBool True, ''hue'' \<mapsto> JNum 10000, ''sat'' \<mapsto> JNum 200, ''bri'' \<mapsto> JNum 150]"
      "JBool True" 10000 200 150]
  by (simp add: state_path_def)

text \<open>
  C10: \<open>set_white_color\<close> with the brightness 0 does what it does with no brightness at
  all, whatever the colour temperature is: the brightness level is 100 percent for
  both, and for every colour temperature that a double can hold (a magnitude below
  \<open>2 ^ 1023\<close>) the request is sent and carries the brightness 100.
\<close>

theorem C10_zero_brightness:
  "set_white_color i ct (JNum 0) = set_white_color i ct JNull \<and>
   bri_level (JNum 0) = Inr 100 \<and> bri_level JNull = Inr 100 \<and>
   (\<bar>c\<bar> < 2 ^ 1023 \<longrightarrow>
     (\<exists>cw ww. set_white_color i (JNum c) (JNum 0) =
        Inr (Set_white_color,
          [(''type'', JStr ''command''), (''param'', JStr ''setcolbrightnessvalue''), (''idx'', i),
           (''color'', JObj [(''m'', JNum 2), (''t'', JNum 0), (''r'', JNum 0), (''g'', JNum 0),
              (''b'', JNum 0), (''cw'', JNum cw), (''ww'', JNum ww)]),
           (''brightness'', JNum 100)])))"
proof -
  have 1: "set_white_color i ct (JNum 0) = set_white_color i ct JNull"
    by (cases "white_mix ct") (auto simp: set_white_color_def bri_level_def)
  have 2: "bri_level (JNum 0) = Inr 100" "bri_level JNull = Inr 100"
    by (simp_all add: bri_level_def)
  have 3: "\<exists>cw ww. set_white_color i (JNum c) (JNum 0) =
        Inr (Set_white_color,
          [(''type'', JStr ''command''), (''param'', JStr ''setcolbrightnessvalue''), (''idx'', i),
           (''color'', JObj [(''m'', JNum 2), (''t'', JNum 0), (''r'', JNum 0), (''g'', JNum 0),
              (''b'', JNum 0), (''cw'', JNum cw), (''ww'', JNum ww)]),
           (''brightness'', JNum 100)])" if "\<bar>c\<bar> < 2 ^ 1023"
    using white_mix_ok [OF that] by (auto simp: set_white_color_def bri_level_def)
  from 1 2 3 show ?thesis by blast
qed

theorem C10_zero_brightness_witness:
  "\<exists>cw ww. set_white_color (JNum 10) (JNum 300) (JNum 0) =
     Inr (Set_white_color,
       [(''type'', JStr ''command''), (''param'', JStr ''setcolbrightnessvalue''), (''idx'', JNum 10),
        (''color'', JObj [(''m'', JNum 2), (''t'', JNum 0), (''r'', JNum 0), (''g'', JNum 0),
           (''b'', JNum 0), (''cw'', JNum cw), (''ww'', JNum ww)]),
        (''brightness'', JNum 100)])"
proof -
  have "\<bar>300 :: int\<bar> < 2 ^ 1023" by simp
  with C10_zero_brightness [of "JNum 10" "JNum 300" 300] show ?thesis by blast
qed

section \<open>Properties of the device registry\<close>

lemma digit_char_inj: "a < 10 \<Longrightarrow> b < 10 \<Longrightarrow> digit_char a = digit_char b \<Longrightarrow> a = b"
proof -
  assume a: "a < 10" and b: "b < 10" and e: "digit_char a = digit_char b"
  have d: "distinct ''0123456789''" by simp
  have "a < length ''0123456789''" "b < length ''0123456789''" using a b by simp_all
  with d e show ?thesis
    unfolding digit_char_def by (simp only: nth_eq_iff_index_eq)
qed

lemma str_nat_nonempty: "str_nat n \<noteq> []"
  by (subst str_nat.simps) simp

lemma str_nat_inj: "str_nat m = str_nat n \<Longrightarrow> m = n"
proof (induction m arbitrary: n rule: str_nat.induct)
  case (1 m)
  show ?case
  proof (cases "m < 10")
    case True
    then have m: "str_nat m = [digit_char m]" by (subst str_nat.simps) simp
    show ?thesis
    proof (cases "n < 10")
      case True
      then have "str_nat n = [digit_char n]" by (subst str_nat.simps) simp
      with m "1.prems" \<open>m < 10\<close> True show ?thesis by (simp add: digit_char_inj)
    next
      case False
      then have "str_nat n = str_nat (n div 10) @ [digit_char (n mod 10)]"
        by (subst str_nat.simps) simp
      with m "1.prems" have "str_nat (n div 10) = []" by simp
      then show ?thesis by (simp add: str_nat_nonempty)
    qed
  next
    case False
    then have m: "str_nat m = str_nat (m div 10) @ [digit_char (m mod 10)]"
      by (subst str_nat.simps) simp
    show ?thesis
    proof (cases "n < 10")
      case True
      then have "str_nat n = [digit_char n]" by (subst str_nat.simps) simp
      with m "1.prems" have "str_nat (m div 10) = []" by simp
      then show ?thesis by (simp add: str_nat_nonempty)
    next
      case nge: False
      then have "str_nat n = str_nat (n div 10) @ [digit_char (n mod 10)]"
        by (subst str_nat.simps) simp
      with m "1.prems" have e: "str_nat (m div 10) = str_nat (n div 10)"
        and d: "digit_char (m mod 10) = digit_char (n mod 10)" by simp_all
      from "1.IH" [OF False e] have "m div 10 = n div 10" .
      moreover from d have "m mod 10 = n mod 10" by (simp add: digit_char_inj)
      moreover have "m = 10 * (m div 10) + m mod 10" "n = 10 * (n div 10) + n mod 10"
        by simp_all
      ultimately show ?thesis by presburger
    qed
  qed
qed

lemma dict_set_new: "k \<notin> fst ` set kvs \<Longrightarrow> dict_set k v kvs = kvs @ [(k, v)]"
  by (induction kvs) auto

lemma add_devices_ok:
  "add_devices ds devs n = Inr (devs', n') \<Longrightarrow> fst ` set devs \<subseteq> str_nat ` {..<n} \<Longrightarrow>
   n' = n + length ds \<and>
   map fst devs' = map fst devs @ map str_nat [n..<n + length ds] \<and>
   map (Some \<circ> name \<circ> snd) devs' = map (Some \<circ> name \<circ> snd) devs @ map entry_name ds \<and>
   map (Some \<circ> idx \<circ> snd) devs' = map (Some \<circ> idx \<circ> snd) devs @ map entry_idx ds \<and>
   map (is_scene \<circ> snd) devs' = map (is_scene \<circ> snd) devs @ replicate (length ds) False"
proof (induction ds arbitrary: devs n)
  case Nil
  then show ?case by simp
next
  case (Cons d ds)
  from Cons.prems(1) obtain nm i where nm: "entry_name d = Some nm" and i: "entry_idx d = Some i"
    by (auto split: option.splits)
  let ?dev = "\<lparr>name = nm, idx = i,
      dev_type = (case entry_type d of None \<Rightarrow> JStr ''switch'' | Some t \<Rightarrow> t),
      is_scene = False, description = None\<rparr>"
  have fresh: "str_nat n \<notin> fst ` set devs"
  proof
    assume "str_nat n \<in> fst ` set devs"
    with Cons.prems(2) obtain k where "k < n" and "str_nat n = str_nat k" by auto
    then show False using str_nat_inj [of n k] by simp
  qed
  then have ds: "dict_set (str_nat n) ?dev devs = devs @ [(str_nat n, ?dev)]"
    by (rule dict_set_new)
  from Cons.prems(1) nm i ds
  have rec: "add_devices ds (devs @ [(str_nat n, ?dev)]) (Suc n) = Inr (devs', n')" by simp
  have sub: "fst ` set (devs @ [(str_nat n, ?dev)]) \<subseteq> str_nat ` {..<Suc n}"
    using Cons.prems(2) by (auto simp: lessThan_Suc)
  have u: "[n..<n + length (d # ds)] = n # [Suc n..<Suc n + length ds]"
  proof -
    have "n + length (d # ds) = Suc n + length ds" by simp
    moreover have "n < Suc n + length ds" by simp
    ultimately show ?thesis by (simp only: upt_conv_Cons)
  qed
  from Cons.IH [OF rec sub] show ?case
    unfolding u by (simp add: nm i)
qed

lemma add_scenes_ok:
  "add_scenes ss devs n = Inr (devs', n') \<Longrightarrow> fst ` set devs \<subseteq> str_nat ` {..<n} \<Longrightarrow>
   n' = n + length ss \<and>
   map fst devs' = map fst devs @ map str_nat [n..<n + length ss] \<and>
   map (Some \<circ> name \<circ> snd) devs' = map (Some \<circ> name \<circ> snd) devs @ map scene_name ss \<and>
   map (Some \<circ> idx \<circ> snd) devs' = map (Some \<circ> idx \<circ> snd) devs @ map scene_idx ss \<and>
   map (is_scene \<circ> snd) devs' = map (is_scene \<circ> snd) devs @ replicate (length ss) True"
proof (induction ss arbitrary: devs n)
  case Nil
  then show ?case by simp
next
  case (Cons s ss)
  from Cons.prems(1) obtain nm i where nm: "scene_name s = Some nm" and i: "scene_idx s = Some i"
    by (auto split: option.splits)
  let ?dev = "\<lparr>name = nm, idx = i, dev_type = JStr ''scene'', is_scene = True,
      description = Some (case scene_description s of None \<Rightarrow> JStr [] | Some t \<Rightarrow> t)\<rparr>"
  have fresh: "str_nat n \<notin> fst ` set devs"
  proof
    assume "str_nat n \<in> fst ` set devs"
    with Cons.prems(2) obtain k where "k < n" and "str_nat n = str_nat k" by auto
    then show False using str_nat_inj [of n k] by simp
  qed
  then have ds: "dict_set (str_nat n) ?dev devs = devs @ [(str_nat n, ?dev)]"
    by (rule dict_set_new)
  from Cons.prems(1) nm i ds
  have rec: "add_scenes ss (devs @ [(str_nat n, ?dev)]) (Suc n) = Inr (devs', n')" by simp
  have sub: "fst ` set (devs @ [(str_nat n, ?dev)]) \<subseteq> str_nat ` {..<Suc n}"
    using Cons.prems(2) by (auto simp: lessThan_Suc)
  have u: "[n..<n + length (s # ss)] = n # [Suc n..<Suc n + length ss]"
  proof -
    have "n + length (s # ss) = Suc n + length ss" by simp
    moreover have "n < Suc n + length ss" by simp
    ultimately show ?thesis by (simp only: upt_conv_Cons)
  qed
  from Cons.IH [OF rec sub] show ?case
    unfolding u by (simp add: nm i)
qed

lemma add_devices_total:
  "\<forall>d \<in> set ds. entry_name d \<noteq> None \<and> entry_idx d \<noteq> None \<Longrightarrow>
   \<exists>r. add_devices ds devs n = Inr r"
  by (induction ds arbitrary: devs n) auto

lemma add_scenes_total:
  "\<forall>s \<in> set ss. scene_name s \<noteq> None \<and> scene_idx s \<noteq> None \<Longrightarrow>
   \<exists>r. add_scenes ss devs n = Inr r"
  by (induction ss arbitrary: devs n) auto

lemma build_devices_dict_ids:
  assumes "build_devices_dict cfg = Inr devs"
  shows "map fst devs =
           map str_nat [1..<1 + length (or_empty (cfg_devices cfg)) + length (or_empty (cfg_scenes cfg))] \<and>
         map (Some \<circ> name \<circ> snd) devs =
           map entry_name (or_empty (cfg_devices cfg)) @ map scene_name (or_empty (cfg_scenes cfg)) \<and>
         map (Some \<circ> idx \<circ> snd) devs =
           map entry_idx (or_empty (cfg_devices cfg)) @ map scene_idx (or_empty (cfg_scenes cfg)) \<and>
         map (is_scene \<circ> snd) devs =
           replicate (length (or_empty (cfg_devices cfg))) False @
           replicate (length (or_empty (cfg_scenes cfg))) True"
proof -
  let ?ds = "or_empty (cfg_devices cfg)" and ?ss = "or_empty (cfg_scenes cfg)"
  from assms obtain devs1 n1 where a: "add_devices ?ds [] 1 = Inr (devs1, n1)"
    by (auto simp: build_devices_dict_def split: sum.splits)
  with assms obtain n2 where b: "add_scenes ?ss devs1 n1 = Inr (devs, n2)"
    by (auto simp: build_devices_dict_def split: sum.splits)
  have A: "n1 = 1 + length ?ds \<and> map fst devs1 = map str_nat [1..<1 + length ?ds] \<and>
      map (Some \<circ> name \<circ> snd) devs1 = map entry_name ?ds \<and>
      map (Some \<circ> idx \<circ> snd) devs1 = map entry_idx ?ds \<and>
      map (is_scene \<circ> snd) devs1 = replicate (length ?ds) False"
    using add_devices_ok [OF a] by simp
  then have sub: "fst ` set devs1 \<subseteq> str_nat ` {..<n1}"
  proof -
    have "fst ` set devs1 = set (map fst devs1)" by simp
    also have "\<dots> = str_nat ` set [1..<1 + length ?ds]" using A by simp
    also have "\<dots> \<subseteq> str_nat ` {..<n1}" using A by auto
    finally show ?thesis .
  qed
  have split: "[1..<1 + length ?ds + length ?ss] = [1..<1 + length ?ds] @ [n1..<n1 + length ?ss]"
    using A upt_add_eq_append [of 1 "1 + length ?ds" "length ?ss"] by simp
  from add_scenes_ok [OF b sub] A show ?thesis
    unfolding split by simp
qed

text \<open>
  C7: when every entry has a name and an index, the registry build succeeds and its
  light ids are "1", "2", ... in input order, the devices first and then the scenes,
  the numbering running on across both; the descriptor under each id is the one of the
  entry at that place. Two devices and one scene get the ids "1", "2" and "3".
\<close>

theorem C7_registry_ids:
  assumes "\<forall>d \<in> set ds. entry_name d \<noteq> None \<and> entry_idx d \<noteq> None"
    and "\<forall>s \<in> set ss. scene_name s \<noteq> None \<and> scene_idx s \<noteq> None"
  shows "\<exists>devs. build_devices_dict \<lparr>cfg_devices = Some ds, cfg_scenes = Some ss\<rparr> = Inr devs \<and>
           map fst devs = map str_nat [1..<1 + length ds + length ss] \<and>
           map (Some \<circ> name \<circ> snd) devs = map entry_name ds @ map scene_name ss \<and>
           map (Some \<circ> idx \<circ> snd) devs = map entry_idx ds @ map scene_idx ss \<and>
           map (is_scene \<circ> snd) devs = replicate (length ds) False @ replicate (length ss) True"
proof -
  let ?cfg = "\<lparr>cfg_devices = Some ds, cfg_scenes = Some ss\<rparr>"
  obtain r1 where r1: "add_devices ds [] 1 = Inr r1"
    using add_devices_total [OF assms(1)] by blast
  obtain r2 where r2: "add_scenes ss (fst r1) (snd r1) = Inr r2"
    using add_scenes_total [OF assms(2)] by blast
  have "build_devices_dict ?cfg = Inr (fst r2)"
    using r1 r2 by (cases r1; cases r2) (simp add: build_devices_dict_def or_empty_def)
  then show ?thesis
    using build_devices_dict_ids [of ?cfg "fst r2"] by (simp add: or_empty_def)
qed

theorem C7_registry_ids_witness:
  "\<exists>devs. build_devices_dict
       \<lparr>cfg_devices = Some
          [\<lparr>entry_name = Some (JStr ''Living Room Light''), entry_idx = Some (JNum 10),
             entry_type = Some (JStr ''rgb'')\<rparr>,
           \<lparr>entry_name = Some (JStr ''Fan''), entry_idx = Some (JNum 11), entry_type = None\<rparr>],
        cfg_scenes = Some
          [\<lparr>scene_name = Some (JStr ''Party Mode''), scene_idx = Some (JNum 1),
             scene_description = None\<rparr>]\<rparr> = Inr devs \<and>
     map fst devs = [''1'', ''2'', ''3''] \<and>
     map (Some \<circ> name \<circ> snd) devs =
       [Some (JStr ''Living Room Light''), Some (JStr ''Fan''), Some (JStr ''Party Mode'')] \<and>
     map (Some \<circ> idx \<circ> snd) devs = [Some (JNum 10), Some (JNum 11), Some (JNum 1)] \<and>
     map (is_scene \<circ> snd) devs = [False, False, True]"
  using C7_registry_ids [of
      "[\<lparr>entry_name = Some (JStr ''Living Room Light''), entry_idx = Some (JNum 10),
             entry_type = Some (JStr ''rgb'')\<rparr>,
           \<lparr>entry_name = Some (JStr ''Fan''), entry_idx = Some (JNum 11), entry_type = None\<rparr>]"
      "[\<lparr>scene_name = Some (JStr ''Party Mode''), scene_idx = Some (JNum 1),
             scene_description = None\<rparr>]"]
  by (simp add: upt_conv_Cons str_nat.simps digit_char_def)

section \<open>Properties of the status query\<close>

text \<open>
  C8: a request that fails and a body that is not JSON give the default status, and
  no exception leaves \<open>get_device_status\<close>. But the status code is never read: a
  response with the status 500 whose body is a well-formed device list is decoded like
  a successful one, here to "on" with full brightness, where the claim asks for the
  default status.
\<close>

theorem C8_status_code_not_read:
  "get_device_status repr loads i scene Request_failed = default_status \<and>
   get_device_status repr loads i scene (Response code None) = default_status \<and>
   get_device_status repr loads (JNum 12) False
     (Response 500 (Some (JObj [(''result'',
        JArr [JObj [(''Status'', JStr ''On''), (''Level'', JNum 100)]])])))
     = \<lparr>st_on = True, st_bri = 254, st_hue = 0, st_sat = 0\<rparr>"
  using level_to_bri_floor [of 100]
  by (simp add: get_device_status_def device_status_def)

end
